theory Spec2Isabelle
  imports Main
begin

section \<open>JavaScript strings and truthiness\<close>

text \<open>
  Strings are lists of characters. An environment variable or a value that may be
  \<^verbatim>\<open>null\<close>/\<^verbatim>\<open>undefined\<close> is a \<open>string option\<close>; such a
  value is truthy exactly when it is present and not the empty string.
\<close>

definition truthy :: "string option \<Rightarrow> bool" where
  "truthy v = (case v of None \<Rightarrow> False | Some s \<Rightarrow> s \<noteq> [])"

text \<open>\<^verbatim>\<open>s.startsWith(p)\<close> and \<^verbatim>\<open>s.includes(p)\<close>.\<close>

fun starts_with :: "string \<Rightarrow> string \<Rightarrow> bool" where
  "starts_with s [] = True"
| "starts_with [] (p # ps) = False"
| "starts_with (c # cs) (p # ps) = (c = p \<and> starts_with cs ps)"

fun str_includes :: "string \<Rightarrow> string \<Rightarrow> bool" where
  "str_includes [] p = (p = [])"
| "str_includes (c # cs) p = (starts_with (c # cs) p \<or> str_includes cs p)"

text \<open>
  \<^verbatim>\<open>s.replace(/\\n/g, "\n")\<close>: every occurrence of the two characters backslash,
  \<open>n\<close> becomes one line feed; the scan goes left to right and resumes after a match.
\<close>

definition backslash :: char where
  "backslash = CHR 0x5C"

definition linefeed :: char where
  "linefeed = CHR 0x0A"

fun replace_backslash_n :: "string \<Rightarrow> string" where
  "replace_backslash_n (a # b # cs) =
     (if a = backslash \<and> b = CHR ''n'' then linefeed # replace_backslash_n cs
      else a # replace_backslash_n (b # cs))"
| "replace_backslash_n cs = cs"

section \<open>The environment read at call time\<close>

text \<open>
  A path of the file system is missing (\<^verbatim>\<open>fs.existsSync\<close> is false), present
  but unreadable (\<^verbatim>\<open>fs.readFileSync\<close> throws), or readable with a content.
\<close>

datatype fs_entry = Missing | Unreadable | Content string

record env =
  SNOWFLAKE_ACCOUNT :: "string option"
  SNOWFLAKE_USER :: "string option"
  SNOWFLAKE_WAREHOUSE :: "string option"
  SNOWFLAKE_DATABASE :: "string option"
  SNOWFLAKE_SCHEMA :: "string option"
  SNOWFLAKE_HOST :: "string option"
  SNOWFLAKE_PRIVATE_KEY_PATH :: "string option"
  SNOWFLAKE_PRIVATE_KEY :: "string option"
  SNOWFLAKE_PAT :: "string option"
  SNOWFLAKE_PASSWORD :: "string option"
  fs :: "string \<Rightarrow> fs_entry"

datatype AuthMethod = oauth | keypair | pat | password | browser

section \<open>Credential resolution (lib/snowflake)\<close>

definition tokenPath :: string where
  "tokenPath = ''/snowflake/session/token''"

text \<open>
  \<^verbatim>\<open>getOAuthToken\<close>: the content of the token file when it exists and can be read;
  a read that throws is caught and gives \<^verbatim>\<open>null\<close>.
\<close>

definition getOAuthToken :: "env \<Rightarrow> string option" where
  "getOAuthToken e =
     (case fs e tokenPath of
        Content s \<Rightarrow> Some s
      | Unreadable \<Rightarrow> None
      | Missing \<Rightarrow> None)"

text \<open>
  \<^verbatim>\<open>getPrivateKey\<close>: inline material first (with its escaped line breaks replaced),
  then the key file. The diagnostic line printed when the read throws is not recorded.
\<close>

definition readKeyFile :: "env \<Rightarrow> string option" where
  "readKeyFile e =
     (case SNOWFLAKE_PRIVATE_KEY_PATH e of
        None \<Rightarrow> None
      | Some keyPath \<Rightarrow>
          (if keyPath = [] then None
           else (case fs e keyPath of
                   Content s \<Rightarrow> Some s
                 | Unreadable \<Rightarrow> None
                 | Missing \<Rightarrow> None)))"

definition getPrivateKey :: "env \<Rightarrow> string option" where
  "getPrivateKey e =
     (case SNOWFLAKE_PRIVATE_KEY e of
        None \<Rightarrow> readKeyFile e
      | Some keyContent \<Rightarrow>
          (if keyContent \<noteq> [] then Some (replace_backslash_n keyContent)
           else readKeyFile e))"

definition detectAuthMethod :: "env \<Rightarrow> AuthMethod" where
  "detectAuthMethod e =
     (if truthy (getOAuthToken e) then oauth
      else if truthy (getPrivateKey e) \<and> truthy (SNOWFLAKE_USER e) then keypair
      else if truthy (SNOWFLAKE_PAT e) then pat
      else if truthy (SNOWFLAKE_PASSWORD e) then password
      else browser)"

text \<open>An environment with nothing configured and an empty file system, for examples.\<close>

definition empty_env :: env where
  "empty_env =
     \<lparr> SNOWFLAKE_ACCOUNT = None, SNOWFLAKE_USER = None, SNOWFLAKE_WAREHOUSE = None,
       SNOWFLAKE_DATABASE = None, SNOWFLAKE_SCHEMA = None, SNOWFLAKE_HOST = None,
       SNOWFLAKE_PRIVATE_KEY_PATH = None, SNOWFLAKE_PRIVATE_KEY = None,
       SNOWFLAKE_PAT = None, SNOWFLAKE_PASSWORD = None, fs = (\<lambda>p. Missing) \<rparr>"

section \<open>The priority order as the specification words it\<close>

text \<open>
  The specification lists five methods and when each applies; the resolver is to return
  the first applicable one. A private key is resolvable when inline material is
  configured, or else a configured key file can be read and is not empty.
\<close>

definition key_resolvable :: "env \<Rightarrow> bool" where
  "key_resolvable e =
     (truthy (SNOWFLAKE_PRIVATE_KEY e) \<or>
      (case SNOWFLAKE_PRIVATE_KEY_PATH e of
         None \<Rightarrow> False
       | Some p \<Rightarrow> p \<noteq> [] \<and> (case fs e p of Content s \<Rightarrow> s \<noteq> [] | Unreadable \<Rightarrow> False | Missing \<Rightarrow> False)))"

definition key_file_readable :: "env \<Rightarrow> bool" where
  "key_file_readable e =
     (case SNOWFLAKE_PRIVATE_KEY_PATH e of
        None \<Rightarrow> False
      | Some p \<Rightarrow> p \<noteq> [] \<and> (case fs e p of Content s \<Rightarrow> True | Unreadable \<Rightarrow> False | Missing \<Rightarrow> False))"

fun applicable :: "env \<Rightarrow> AuthMethod \<Rightarrow> bool" where
  "applicable e oauth = (case fs e tokenPath of Content s \<Rightarrow> s \<noteq> [] | Unreadable \<Rightarrow> False | Missing \<Rightarrow> False)"
| "applicable e keypair = (key_resolvable e \<and> truthy (SNOWFLAKE_USER e))"
| "applicable e pat = truthy (SNOWFLAKE_PAT e)"
| "applicable e password = truthy (SNOWFLAKE_PASSWORD e)"
| "applicable e browser = True"

definition priority :: "AuthMethod list" where
  "priority = [oauth, keypair, pat, password, browser]"

section \<open>The session manager and the query executor (lib/snowflake)\<close>

text \<open>
  A value thrown by the driver or by the platform: its \<^verbatim>\<open>message\<close> and
  \<^verbatim>\<open>code\<close> properties when present, and whether it is an \<^verbatim>\<open>Error\<close>
  and a \<^verbatim>\<open>DOMException\<close>.
\<close>

record JsError =
  message :: "string option"
  code :: "int option"
  isError :: bool
  isDOMException :: bool

definition new_Error :: "string \<Rightarrow> JsError" where
  "new_Error m = \<lparr> message = Some m, code = None, isError = True, isDOMException = False \<rparr>"

record ConnectionOptions =
  account :: string
  warehouse :: string
  database :: string
  schema :: string
  host :: "string option"
  username :: "string option"
  token :: "string option"
  privateKey :: "string option"
  password_opt :: "string option"
  authenticator :: "string option"

text \<open>A connection object: the options it was created with, and a number telling the objects apart.\<close>

record Connection =
  conn_id :: nat
  conn_options :: ConnectionOptions

type_synonym row = "(string \<times> string) list"

text \<open>
  What the module does to the outside, in order: the lines it prints and the calls it
  makes on the driver.
\<close>

datatype event =
    Log_reconnecting
  | Log_connecting AuthMethod
  | Warn_browser
  | Log_query_error "string option"
  | Call_destroy Connection
  | Call_connect Connection
  | Call_execute Connection string
  | Log_agent_error string
  | Log_fallback
  | Log_analyst_error string

text \<open>
  The outside world answers as a function of everything that happened so far: the
  environment as it reads at that moment, whether creating the connection and awaiting
  \<^verbatim>\<open>connectAsync\<close> throws, and what \<^verbatim>\<open>execute\<close> hands to its callback
  (an error, or the rows, possibly undefined). The theorems hold for every such world.
\<close>

record world =
  environ :: "event list \<Rightarrow> env"
  connectAsync :: "event list \<Rightarrow> Connection \<Rightarrow> JsError option"
  execute :: "event list \<Rightarrow> Connection \<Rightarrow> string \<Rightarrow> JsError + row list option"

text \<open>The module's variables, and the trace of events.\<close>

record state =
  connection :: "Connection option"
  cachedToken :: "string option"
  cachedAuthMethod :: "AuthMethod option"
  trace :: "event list"

definition initial_state :: state where
  "initial_state = \<lparr> connection = None, cachedToken = None, cachedAuthMethod = None, trace = [] \<rparr>"

definition emit :: "event list \<Rightarrow> state \<Rightarrow> state" where
  "emit evs st = st\<lparr> trace := trace st @ evs \<rparr>"

text \<open>\<^verbatim>\<open>v || d\<close> for a string that may be undefined.\<close>

definition or_default :: "string option \<Rightarrow> string \<Rightarrow> string" where
  "or_default v d = (case v of None \<Rightarrow> d | Some s \<Rightarrow> if s = [] then d else s)"

definition base_options :: "env \<Rightarrow> ConnectionOptions" where
  "base_options e =
     \<lparr> account = or_default (SNOWFLAKE_ACCOUNT e) ''your-account'',
       warehouse = or_default (SNOWFLAKE_WAREHOUSE e) ''COMPUTE_WH'',
       database = or_default (SNOWFLAKE_DATABASE e) ''DEMO'',
       schema = or_default (SNOWFLAKE_SCHEMA e) ''DEMO'',
       host = None, username = None, token = None, privateKey = None,
       password_opt = None, authenticator = None \<rparr>"

text \<open>\<^verbatim>\<open>getConfig\<close>: the options, and the warning printed on the browser branch.\<close>

definition getConfig :: "env \<Rightarrow> ConnectionOptions \<times> event list" where
  "getConfig e =
     (let base = base_options e; authMethod = detectAuthMethod e in
      if authMethod = oauth then
        (base\<lparr> host := SNOWFLAKE_HOST e, token := getOAuthToken e,
               authenticator := Some ''oauth'' \<rparr>, [])
      else if authMethod = keypair then
        (base\<lparr> username := SNOWFLAKE_USER e, privateKey := getPrivateKey e,
               authenticator := Some ''SNOWFLAKE_JWT'' \<rparr>, [])
      else if authMethod = pat then
        (base\<lparr> username := Some (or_default (SNOWFLAKE_USER e) ''your-username''),
               token := SNOWFLAKE_PAT e,
               authenticator := Some ''PROGRAMMATIC_ACCESS_TOKEN'' \<rparr>, [])
      else if authMethod = password then
        (base\<lparr> username := Some (or_default (SNOWFLAKE_USER e) ''your-username''),
               password_opt := SNOWFLAKE_PASSWORD e \<rparr>, [])
      else
        (base\<lparr> username := Some (or_default (SNOWFLAKE_USER e) ''your-username''),
               authenticator := Some ''EXTERNALBROWSER'' \<rparr>, [Warn_browser]))"

text \<open>
  The second half of \<^verbatim>\<open>getConnection\<close>, after the early return: a cached
  connection is destroyed, the method resolved at the start of the call is printed, and
  a new connection is created from \<^verbatim>\<open>getConfig()\<close>, which reads the environment
  again at that moment, after the lines printed and the destroy call. The three
  variables are assigned only after the connect did not throw; the cached method and
  token are the ones read at the start of the call.
\<close>

definition connect_new ::
  "world \<Rightarrow> AuthMethod \<Rightarrow> string option \<Rightarrow> state \<Rightarrow> (JsError + Connection) \<times> state" where
  "connect_new w authMethod tok st =
     (let st1 = (case connection st of
                   None \<Rightarrow> st
                 | Some old \<Rightarrow> emit [Log_reconnecting, Call_destroy old] st);
          st2 = emit [Log_connecting authMethod] st1;
          config = getConfig (environ w (trace st2));
          st3 = emit (snd config) st2;
          conn = \<lparr> conn_id = length (trace st3), conn_options = fst config \<rparr>;
          st4 = emit [Call_connect conn] st3
      in case connectAsync w (trace st4) conn of
           Some err \<Rightarrow> (Inl err, st4)
         | None \<Rightarrow>
             (Inr conn, st4\<lparr> connection := Some conn, cachedToken := tok,
                             cachedAuthMethod := Some authMethod \<rparr>))"

text \<open>
  \<^verbatim>\<open>getConnection\<close>. The environment is read at the start of the call, for the
  method and the token that are compared with the cached ones (the reads of lines 120
  and 121 follow each other with no call in between and are one reading here). The
  cached connection is returned when the three-part test passes.
\<close>

definition getConnection :: "world \<Rightarrow> state \<Rightarrow> (JsError + Connection) \<times> state" where
  "getConnection w st =
     (let e = environ w (trace st);
          authMethod = detectAuthMethod e;
          tok = (if authMethod = oauth then getOAuthToken e else None)
      in case connection st of
           None \<Rightarrow> connect_new w authMethod tok st
         | Some conn \<Rightarrow>
             if Some authMethod = cachedAuthMethod st \<and> (\<not> truthy tok \<or> tok = cachedToken st)
             then (Inr conn, st)
             else connect_new w authMethod tok st)"

definition isRetryableError :: "JsError \<Rightarrow> bool" where
  "isRetryableError err =
     ((case message err of None \<Rightarrow> False | Some m \<Rightarrow> str_includes m ''OAuth access token expired'') \<or>
      (case message err of None \<Rightarrow> False | Some m \<Rightarrow> str_includes m ''terminated connection'') \<or>
      code err = Some 407002)"

text \<open>
  The body of the \<^verbatim>\<open>try\<close> in \<^verbatim>\<open>query\<close>: get the connection, submit the
  statement, and resolve with the rows (\<^verbatim>\<open>rows || []\<close>) or reject with the error.
\<close>

definition attempt :: "world \<Rightarrow> string \<Rightarrow> state \<Rightarrow> (JsError + row list) \<times> state" where
  "attempt w sql st =
     (case getConnection w st of
        (Inl err, st1) \<Rightarrow> (Inl err, st1)
      | (Inr conn, st1) \<Rightarrow>
          (let st2 = emit [Call_execute conn sql] st1 in
           case execute w (trace st2) conn sql of
             Inl err \<Rightarrow> (Inl err, st2)
           | Inr rows \<Rightarrow> (Inr (case rows of None \<Rightarrow> [] | Some rs \<Rightarrow> rs), st2)))"

text \<open>
  \<^verbatim>\<open>query(sql, retries)\<close>: the \<^verbatim>\<open>catch\<close> prints the error's message, and when
  budget is left and the error is retryable it clears \<^verbatim>\<open>connection\<close> and calls
  itself with one retry less; otherwise it throws the error it caught.
\<close>

function query :: "world \<Rightarrow> string \<Rightarrow> int \<Rightarrow> state \<Rightarrow> (JsError + row list) \<times> state" where
  "query w sql retries st =
     (case attempt w sql st of
        (Inr rows, st1) \<Rightarrow> (Inr rows, st1)
      | (Inl err, st1) \<Rightarrow>
          (let st2 = emit [Log_query_error (message err)] st1 in
           if retries > 0 \<and> isRetryableError err
           then query w sql (retries - 1) (st2\<lparr> connection := None \<rparr>)
           else (Inl err, st2)))"
  by pat_completeness auto
termination
  by (relation "measure (\<lambda>(w, sql, retries, st). nat retries)") auto

section \<open>Notions used to state the session properties\<close>

text \<open>
  The method a connection was built under, read back from the authenticator of its
  options (the password branch of \<^verbatim>\<open>getConfig\<close> is the one that sets none).
\<close>

definition method_of :: "ConnectionOptions \<Rightarrow> AuthMethod" where
  "method_of opts =
     (case authenticator opts of
        None \<Rightarrow> password
      | Some a \<Rightarrow>
          if a = ''oauth'' then oauth
          else if a = ''SNOWFLAKE_JWT'' then keypair
          else if a = ''PROGRAMMATIC_ACCESS_TOKEN'' then pat
          else browser)"

text \<open>
  The cache is consistent when the two cached values describe the cached connection:
  the method it was built under, and its token when that method is oauth.
\<close>

definition consistent :: "state \<Rightarrow> bool" where
  "consistent st =
     (case connection st of
        None \<Rightarrow> True
      | Some c \<Rightarrow>
          cachedAuthMethod st = Some (method_of (conn_options c)) \<and>
          cachedToken st =
            (if method_of (conn_options c) = oauth then token (conn_options c) else None))"

text \<open>
  The states the module can be in: the initial one, and any state after a query, after a
  direct \<^verbatim>\<open>getConnection\<close> (as \<^verbatim>\<open>cortexAnalystQuery\<close> makes), or after other
  code printed something.
\<close>

inductive reachable :: "world \<Rightarrow> state \<Rightarrow> bool" for w :: world where
  start: "reachable w initial_state"
| after_query: "reachable w st \<Longrightarrow> reachable w (snd (query w sql retries st))"
| after_getConnection: "reachable w st \<Longrightarrow> reachable w (snd (getConnection w st))"
| after_emit: "reachable w st \<Longrightarrow> reachable w (emit evs st)"

text \<open>
  The environment as \<^verbatim>\<open>getConfig()\<close> reads it inside \<open>connect_new\<close>, and the
  connection object that \<open>connect_new\<close> creates.
\<close>

definition config_env :: "world \<Rightarrow> AuthMethod \<Rightarrow> state \<Rightarrow> env" where
  "config_env w m st =
     environ w (trace st
       @ (case connection st of None \<Rightarrow> [] | Some old \<Rightarrow> [Log_reconnecting, Call_destroy old])
       @ [Log_connecting m])"

definition next_connection :: "world \<Rightarrow> AuthMethod \<Rightarrow> state \<Rightarrow> Connection" where
  "next_connection w m st =
     \<lparr> conn_id = length (trace st) + (case connection st of None \<Rightarrow> 0 | Some old \<Rightarrow> 2) + 1
                   + length (snd (getConfig (config_env w m st))),
       conn_options = fst (getConfig (config_env w m st)) \<rparr>"

text \<open>
  The environment does not change in the middle of a \<^verbatim>\<open>getConnection\<close> call:
  \<^verbatim>\<open>getConfig()\<close> reads what the start of the call read.
\<close>

definition stable_reads :: "world \<Rightarrow> bool" where
  "stable_reads w =
     (\<forall>tr old m.
        environ w (tr @ [Log_connecting m]) = environ w tr \<and>
        environ w (tr @ [Log_reconnecting, Call_destroy old, Log_connecting m]) = environ w tr)"

fun is_execute :: "event \<Rightarrow> bool" where
  "is_execute (Call_execute c s) = True"
| "is_execute ev = False"

fun is_connect :: "event \<Rightarrow> bool" where
  "is_connect (Call_connect c) = True"
| "is_connect ev = False"

fun is_query_error :: "event \<Rightarrow> bool" where
  "is_query_error (Log_query_error m) = True"
| "is_query_error ev = False"

text \<open>Bounds on the statements executed, the connects and the error lines among some events.\<close>

definition bounded_events :: "nat \<Rightarrow> nat \<Rightarrow> nat \<Rightarrow> event list \<Rightarrow> bool" where
  "bounded_events x c q evs =
     (length (filter is_execute evs) \<le> x \<and> length (filter is_connect evs) \<le> c
      \<and> length (filter is_query_error evs) \<le> q)"



subsection \<open>Example worlds\<close>

text \<open>The platform rewrites the token file after the first statement ran.\<close>

definition oauth_env :: "string \<Rightarrow> env" where
  "oauth_env tok = empty_env\<lparr> fs := (\<lambda>p. if p = tokenPath then Content tok else Missing) \<rparr>"



definition oauth_session :: "string \<Rightarrow> nat \<Rightarrow> Connection" where
  "oauth_session tok n = \<lparr> conn_id = n, conn_options = fst (getConfig (oauth_env tok)) \<rparr>"



text \<open>
  The platform rewrites the token file in the middle of the first
  \<^verbatim>\<open>getConnection\<close> call, after its first reads.
\<close>

definition racing_world :: world where
  "racing_world =
     \<lparr> environ = (\<lambda>tr. if tr = [] then oauth_env ''tok1'' else oauth_env ''tok2''),
       connectAsync = (\<lambda>tr c. None),
       execute = (\<lambda>tr c sql. Inr (Some [])) \<rparr>"

definition raced_state :: state where
  "raced_state = snd (query racing_world ''SELECT 1'' 1 initial_state)"

text \<open>
  A token and a user in the environment, no key and no token file; the token variable
  is given another value after the first statement ran.
\<close>

definition pat_env :: "string \<Rightarrow> env" where
  "pat_env t = empty_env\<lparr> SNOWFLAKE_USER := Some ''bob'', SNOWFLAKE_PAT := Some t \<rparr>"



definition pat_session :: "string \<Rightarrow> nat \<Rightarrow> Connection" where
  "pat_session t n = \<lparr> conn_id = n, conn_options = fst (getConfig (pat_env t)) \<rparr>"

text \<open>Every statement is rejected: with an expired token, or with a compilation error.\<close>

definition expired_error :: JsError where
  "expired_error = new_Error ''OAuth access token expired''"

definition expired_world :: world where
  "expired_world =
     \<lparr> environ = (\<lambda>tr. pat_env ''abc123''),
       connectAsync = (\<lambda>tr c. None),
       execute = (\<lambda>tr c sql. Inl expired_error) \<rparr>"

definition syntax_error :: JsError where
  "syntax_error = new_Error ''SQL compilation error''"

definition rejecting_world :: world where
  "rejecting_world =
     \<lparr> environ = (\<lambda>tr. pat_env ''abc123''),
       connectAsync = (\<lambda>tr c. None),
       execute = (\<lambda>tr c sql. Inl syntax_error) \<rparr>"

text \<open>Everything configured at once, with the token file as given.\<close>

definition crowded_env :: "fs_entry \<Rightarrow> env" where
  "crowded_env tokenFile =
     empty_env\<lparr> SNOWFLAKE_USER := Some ''bob'', SNOWFLAKE_PRIVATE_KEY := Some ''KEY'',
                 SNOWFLAKE_PAT := Some ''abc123'', SNOWFLAKE_PASSWORD := Some ''hunter2'',
                 fs := (\<lambda>p. if p = tokenPath then tokenFile else Missing) \<rparr>"

section \<open>The JWT signer (the assistant's route)\<close>

subsection \<open>String operations\<close>

text \<open>
  \<^verbatim>\<open>s.toUpperCase()\<close> on the letters a to z; every other character is kept (the
  model covers account identifiers and user names written in ASCII).
\<close>

definition toUpperCase_char :: "char \<Rightarrow> char" where
  "toUpperCase_char c =
     (case map_of (zip ''abcdefghijklmnopqrstuvwxyz'' ''ABCDEFGHIJKLMNOPQRSTUVWXYZ'') c of
        None \<Rightarrow> c
      | Some u \<Rightarrow> u)"

definition toUpperCase :: "string \<Rightarrow> string" where
  "toUpperCase s = map toUpperCase_char s"

text \<open>
  \<^verbatim>\<open>s.replace(p, "")\<close> with a string pattern: the first occurrence of \<open>p\<close> is
  removed, wherever it stands, and only the first.
\<close>

fun remove_first :: "string \<Rightarrow> string \<Rightarrow> string" where
  "remove_first p [] = []"
| "remove_first p (c # cs) =
     (if starts_with (c # cs) p then drop (length p) (c # cs) else c # remove_first p cs)"

text \<open>\<^verbatim>\<open>s.split(d)\<close> for a separator of one character.\<close>

fun split_char :: "char \<Rightarrow> string \<Rightarrow> string list" where
  "split_char d [] = [[]]"
| "split_char d (c # cs) =
     (if c = d then [] # split_char d cs
      else (case split_char d cs of
              [] \<Rightarrow> [[c]]
            | s # ss \<Rightarrow> (c # s) # ss))"

text \<open>Element 0 of an array of strings, as a template literal prints it.\<close>

definition element0 :: "string list \<Rightarrow> string" where
  "element0 xs = (case xs of [] \<Rightarrow> ''undefined'' | x # rest \<Rightarrow> x)"

text \<open>Lines 179 to 181 of the route: the account part and the qualified user name.\<close>

definition accountUpper :: "string \<Rightarrow> string" where
  "accountUpper acct = element0 (split_char (CHR ''.'') (remove_first ''.GLOBAL'' (toUpperCase acct)))"

definition qualifiedUsername :: "string \<Rightarrow> string \<Rightarrow> string" where
  "qualifiedUsername acct usr = accountUpper acct @ ''.'' @ toUpperCase usr"

subsection \<open>The account normalisation as the specification words it\<close>

text \<open>
  Uppercase, strip a \<^verbatim>\<open>.GLOBAL\<close> suffix, keep the segment before the first
  remaining dot.
\<close>

definition ends_with :: "string \<Rightarrow> string \<Rightarrow> bool" where
  "ends_with s suf = (length suf \<le> length s \<and> drop (length s - length suf) s = suf)"

definition strip_suffix :: "string \<Rightarrow> string \<Rightarrow> string" where
  "strip_suffix suf s = (if ends_with s suf then take (length s - length suf) s else s)"

definition normalized_account_spec :: "string \<Rightarrow> string" where
  "normalized_account_spec acct =
     takeWhile (\<lambda>c. c \<noteq> CHR ''.'') (strip_suffix ''.GLOBAL'' (toUpperCase acct))"

definition qualified_identity_spec :: "string \<Rightarrow> string \<Rightarrow> string" where
  "qualified_identity_spec acct usr = normalized_account_spec acct @ ''.'' @ toUpperCase usr"

subsection \<open>JSON text and base64url\<close>

definition dquote :: char where
  "dquote = CHR 0x22"

definition hex_digit :: "nat \<Rightarrow> char" where
  "hex_digit k = ''0123456789abcdef'' ! k"

text \<open>\<^verbatim>\<open>JSON.stringify\<close> of a string: the escapes of the quote, the backslash and the control characters.\<close>

definition json_escape_char :: "char \<Rightarrow> string" where
  "json_escape_char c =
     (if c = dquote then [backslash, dquote]
      else if c = backslash then [backslash, backslash]
      else if c = CHR 0x08 then [backslash, CHR ''b'']
      else if c = CHR 0x0C then [backslash, CHR ''f'']
      else if c = linefeed then [backslash, CHR ''n'']
      else if c = CHR 0x0D then [backslash, CHR ''r'']
      else if c = CHR 0x09 then [backslash, CHR ''t'']
      else if (of_char c :: nat) < 32 then
        [backslash, CHR ''u'', CHR ''0'', CHR ''0'',
         hex_digit ((of_char c :: nat) div 16), hex_digit ((of_char c :: nat) mod 16)]
      else [c])"

definition json_string :: "string \<Rightarrow> string" where
  "json_string s = [dquote] @ concat (map json_escape_char s) @ [dquote]"

text \<open>\<^verbatim>\<open>JSON.stringify\<close> of an integer: its decimal digits.\<close>

fun show_nat :: "nat \<Rightarrow> string" where
  "show_nat n =
     (if n < 10 then [''0123456789'' ! n]
      else show_nat (n div 10) @ [''0123456789'' ! (n mod 10)])"

definition json_number :: "int \<Rightarrow> string" where
  "json_number i = (if i < 0 then ''-'' @ show_nat (nat (- i)) else show_nat (nat i))"

text \<open>
  \<^verbatim>\<open>Buffer.from(s).toString("base64url")\<close>: three bytes give four digits of the
  URL-safe alphabet; one or two bytes left over give two or three digits, and no padding
  is written.
\<close>

definition b64url_alphabet :: string where
  "b64url_alphabet = ''ABCDEFGHIJKLMNOPQRSTUVWXYZabcdefghijklmnopqrstuvwxyz0123456789-_''"

definition b64url_digit :: "nat \<Rightarrow> char" where
  "b64url_digit k = b64url_alphabet ! k"

fun b64url_bytes :: "nat list \<Rightarrow> string" where
  "b64url_bytes (a # b # c # rest) =
     [b64url_digit (a div 4), b64url_digit ((a mod 4) * 16 + b div 16),
      b64url_digit ((b mod 16) * 4 + c div 64), b64url_digit (c mod 64)] @ b64url_bytes rest"
| "b64url_bytes [a, b] =
     [b64url_digit (a div 4), b64url_digit ((a mod 4) * 16 + b div 16),
      b64url_digit ((b mod 16) * 4)]"
| "b64url_bytes [a] = [b64url_digit (a div 4), b64url_digit ((a mod 4) * 16)]"
| "b64url_bytes [] = []"

definition base64url :: "string \<Rightarrow> string" where
  "base64url s = b64url_bytes (map of_char s)"

subsection \<open>Header, payload and the signed token\<close>

record jwt_header =
  hdr_alg :: string
  hdr_typ :: string

record jwt_payload =
  iss :: string
  sub :: string
  iat :: int
  exp :: int

definition stringify_header :: "jwt_header \<Rightarrow> string" where
  "stringify_header h =
     ''{'' @ json_string ''alg'' @ '':'' @ json_string (hdr_alg h) @ '','' @
     json_string ''typ'' @ '':'' @ json_string (hdr_typ h) @ ''}''"

definition stringify_payload :: "jwt_payload \<Rightarrow> string" where
  "stringify_payload p =
     ''{'' @ json_string ''iss'' @ '':'' @ json_string (iss p) @ '','' @
     json_string ''sub'' @ '':'' @ json_string (sub p) @ '','' @
     json_string ''iat'' @ '':'' @ json_number (iat p) @ '','' @
     json_string ''exp'' @ '':'' @ json_number (exp p) @ ''}''"

text \<open>
  The cryptographic library and the clock are outside the repository. The fingerprint
  stands for \<^verbatim>\<open>createPublicKey(key).export(spki, der)\<close> hashed with SHA-256 and
  written in base64; the signer for \<^verbatim>\<open>createSign("RSA-SHA256").update(data).sign(key, "base64url")\<close>.
  Either may throw. \<^verbatim>\<open>dateNow\<close> is \<^verbatim>\<open>Date.now()\<close>, in milliseconds.
\<close>

record crypto =
  publicKeyFingerprint :: "string \<Rightarrow> JsError + string"
  rsaSha256Sign :: "string \<Rightarrow> string \<Rightarrow> JsError + string"
  dateNow :: int

datatype jwt_failure = Private_key_not_available | Crypto_failed JsError

definition the_header :: jwt_header where
  "the_header = \<lparr> hdr_alg = ''RS256'', hdr_typ = ''JWT'' \<rparr>"

definition the_payload :: "string \<Rightarrow> string \<Rightarrow> string \<Rightarrow> int \<Rightarrow> jwt_payload" where
  "the_payload acct usr publicKeyFp now =
     \<lparr> iss = qualifiedUsername acct usr @ ''.SHA256:'' @ publicKeyFp,
       sub = qualifiedUsername acct usr,
       iat = now,
       exp = now + 3600 \<rparr>"

definition generateJWT :: "crypto \<Rightarrow> env \<Rightarrow> jwt_failure + string" where
  "generateJWT cr e =
     (let acct = or_default (SNOWFLAKE_ACCOUNT e) [];
          usr = or_default (SNOWFLAKE_USER e) []
      in case getPrivateKey e of
           None \<Rightarrow> Inl Private_key_not_available
         | Some pkey \<Rightarrow>
             if pkey = [] then Inl Private_key_not_available
             else
               (case publicKeyFingerprint cr pkey of
                  Inl err \<Rightarrow> Inl (Crypto_failed err)
                | Inr publicKeyFp \<Rightarrow>
                    (let now = dateNow cr div 1000;
                         headerB64 = base64url (stringify_header the_header);
                         payloadB64 = base64url (stringify_payload (the_payload acct usr publicKeyFp now))
                     in case rsaSha256Sign cr pkey (headerB64 @ ''.'' @ payloadB64) of
                          Inl err \<Rightarrow> Inl (Crypto_failed err)
                        | Inr signature \<Rightarrow> Inr (headerB64 @ ''.'' @ payloadB64 @ ''.'' @ signature))))"

text \<open>What a caller of \<^verbatim>\<open>generateJWT\<close> catches.\<close>

definition thrown :: "jwt_failure \<Rightarrow> JsError" where
  "thrown f =
     (case f of
        Private_key_not_available \<Rightarrow> new_Error ''Private key not available for JWT generation''
      | Crypto_failed err \<Rightarrow> err)"

section \<open>The natural-language gateway (the assistant's route)\<close>

text \<open>
  The route has its own copy of \<^verbatim>\<open>getPrivateKey\<close>, the same as the one of
  lib/snowflake but for the text of the diagnostic line; \<open>getPrivateKey\<close> stands for both.
\<close>

definition getAuthToken :: "crypto \<Rightarrow> env \<Rightarrow> JsError + (string \<times> string)" where
  "getAuthToken cr e =
     (if truthy (SNOWFLAKE_PAT e) then
        Inr (or_default (SNOWFLAKE_PAT e) [], ''PROGRAMMATIC_ACCESS_TOKEN'')
      else if truthy (getPrivateKey e) \<and> truthy (SNOWFLAKE_USER e) then
        (case generateJWT cr e of
           Inl f \<Rightarrow> Inl (thrown f)
         | Inr t \<Rightarrow> Inr (t, ''KEYPAIR_JWT''))
      else Inl (new_Error ''No valid authentication method available for Cortex Agent API''))"

definition getAccountUrl :: "env \<Rightarrow> string" where
  "getAccountUrl e =
     (let acct = or_default (SNOWFLAKE_ACCOUNT e) [] in
      if str_includes acct ''.snowflakecomputing.com'' then ''https://'' @ acct
      else ''https://'' @ acct @ ''.snowflakecomputing.com'')"

definition agentUrl :: "env \<Rightarrow> string" where
  "agentUrl e =
     getAccountUrl e @ ''/api/v2/databases/DEMO/schemas/DEMO/agents/NYC_OPS_CENTER_AGENT:run''"

text \<open>What \<^verbatim>\<open>callCortexAgent\<close> returns.\<close>

record AgentResult =
  agent_answer :: string
  agent_sql :: "string option"
  agent_results :: "row list option"
  agent_toolName :: "string option"

text \<open>
  The remote agent is outside the repository: given the URL, the token, its type and
  the question, the exchange (with the abort signal armed at 180000 ms) and the reading
  of the response either throw or give the value \<^verbatim>\<open>callCortexAgent\<close> returns. An
  aborted \<^verbatim>\<open>fetch\<close> throws a \<^verbatim>\<open>DOMException\<close>.
\<close>

type_synonym agent = "string \<Rightarrow> string \<Rightarrow> string \<Rightarrow> string \<Rightarrow> JsError + AgentResult"

definition callCortexAgent :: "crypto \<Rightarrow> agent \<Rightarrow> env \<Rightarrow> string \<Rightarrow> JsError + AgentResult" where
  "callCortexAgent cr ag e question =
     (case getAuthToken cr e of
        Inl err \<Rightarrow> Inl err
      | Inr (tok, tokenType) \<Rightarrow> ag (agentUrl e) tok tokenType question)"

definition squote :: char where
  "squote = CHR 0x27"

text \<open>\<^verbatim>\<open>s.replace(/'/g, "''")\<close>.\<close>

fun replace_quotes :: "string \<Rightarrow> string" where
  "replace_quotes [] = []"
| "replace_quotes (c # cs) =
     (if c = squote then squote # squote # replace_quotes cs else c # replace_quotes cs)"

definition completion_prompt :: string where
  "completion_prompt = ''You are an NYC Operations assistant. Answer this question concisely: ''"

text \<open>The statement of \<^verbatim>\<open>fallbackToDirectQuery\<close>, with the line breaks and indentation of the template.\<close>

definition fallback_sql :: "string \<Rightarrow> string" where
  "fallback_sql question =
     (let escapedQuestion = replace_quotes question in
      [linefeed] @ ''    SELECT SNOWFLAKE.CORTEX.COMPLETE('' @ [linefeed] @
      ''      '' @ [squote] @ ''mistral-large2'' @ [squote] @ '','' @ [linefeed] @
      ''      '' @ [squote] @ completion_prompt @ escapedQuestion @ [squote] @ [linefeed] @
      ''    ) as RESPONSE'' @ [linefeed] @ ''  '')"

text \<open>\<^verbatim>\<open>response[0]?.RESPONSE || "Unable to process your question."\<close>\<close>

definition fallback_answer :: "row list \<Rightarrow> string" where
  "fallback_answer response =
     (case response of
        [] \<Rightarrow> ''Unable to process your question.''
      | r # rest \<Rightarrow> or_default (map_of r ''RESPONSE'') ''Unable to process your question.'')"

record FallbackResult =
  fb_answer :: string
  fb_sql :: "string option"
  fb_results :: "row list option"

definition fallbackToDirectQuery ::
  "world \<Rightarrow> string \<Rightarrow> state \<Rightarrow> (JsError + FallbackResult) \<times> state" where
  "fallbackToDirectQuery w question st =
     (case query w (fallback_sql question) 1 st of
        (Inl err, st1) \<Rightarrow> (Inl err, st1)
      | (Inr response, st1) \<Rightarrow>
          (Inr \<lparr> fb_answer = fallback_answer response, fb_sql = None, fb_results = None \<rparr>, st1))"

text \<open>
  The JSON body of a successful response (without \<^verbatim>\<open>duration\<close>, which is wall-clock
  time), and the responses of the route.
\<close>

record AskBody =
  answer :: string
  sql :: "string option"
  results :: "row list option"
  rowCount :: nat
  toolName :: "string option"
  usedAgent :: bool
  agentName :: "string option"

datatype http_response = Ok_json AskBody | Error_json nat string

text \<open>\<^verbatim>\<open>err instanceof Error ? err.message : "Unknown error"\<close>\<close>

definition error_message :: "JsError \<Rightarrow> string" where
  "error_message err =
     (if isError err then (case message err of None \<Rightarrow> [] | Some m \<Rightarrow> m)
      else ''Unknown error'')"

text \<open>The outer \<^verbatim>\<open>catch\<close> of \<^verbatim>\<open>POST\<close>.\<close>

definition outer_catch :: "JsError \<Rightarrow> state \<Rightarrow> http_response \<times> state" where
  "outer_catch err st =
     (let errorMessage = error_message err;
          st1 = emit [Log_analyst_error errorMessage] st
      in if str_includes errorMessage ''timeout'' \<or> str_includes errorMessage ''aborted''
         then (Error_json 504 ''Request timed out. Please try a simpler question.'', st1)
         else (Error_json 500 (''Failed to process question: '' @ errorMessage), st1))"

definition row_count :: "row list option \<Rightarrow> nat" where
  "row_count rs = (case rs of None \<Rightarrow> 0 | Some xs \<Rightarrow> length xs)"

text \<open>
  \<^verbatim>\<open>POST\<close>. The request is what \<^verbatim>\<open>request.json()\<close> gives: it throws, or the
  body's \<^verbatim>\<open>question\<close> is a string or is missing.
\<close>

definition POST ::
  "world \<Rightarrow> crypto \<Rightarrow> agent \<Rightarrow> JsError + string option \<Rightarrow> state \<Rightarrow> http_response \<times> state" where
  "POST w cr ag request st =
     (case request of
        Inl err \<Rightarrow> outer_catch err st
      | Inr None \<Rightarrow> (Error_json 400 ''Question is required'', st)
      | Inr (Some question) \<Rightarrow>
          if question = [] then (Error_json 400 ''Question is required'', st)
          else
            (case callCortexAgent cr ag (environ w (trace st)) question of
               Inr agentResponse \<Rightarrow>
                 (Ok_json \<lparr> answer = agent_answer agentResponse,
                            sql = agent_sql agentResponse,
                            results = agent_results agentResponse,
                            rowCount = row_count (agent_results agentResponse),
                            toolName = agent_toolName agentResponse,
                            usedAgent = True,
                            agentName = Some ''DEMO.DEMO.NYC_OPS_CENTER_AGENT'' \<rparr>, st)
             | Inl agentError \<Rightarrow>
                 (let errorMsg = error_message agentError;
                      st1 = emit [Log_agent_error errorMsg] st
                  in if str_includes errorMsg ''aborted'' \<or> isDOMException agentError
                     then outer_catch (new_Error ''Request timeout'') st1
                     else
                       (case fallbackToDirectQuery w question (emit [Log_fallback] st1) of
                          (Inl err, st2) \<Rightarrow> outer_catch err st2
                        | (Inr fallback, st2) \<Rightarrow>
                            (Ok_json \<lparr> answer = fb_answer fallback,
                                       sql = fb_sql fallback,
                                       results = fb_results fallback,
                                       rowCount = row_count (fb_results fallback),
                                       toolName = None,
                                       usedAgent = False,
                                       agentName = None \<rparr>, st2)))))"

subsection \<open>String literals of SQL, as the warehouse reads them\<close>

text \<open>
  The statement is sent to Snowflake, whose rule for a string constant in single quotes
  is this: the constant opens at a single quote; inside it two single quotes in a row
  stand for one quote, and a backslash starts an escape sequence, so that the character
  after a backslash, a single quote included, belongs to the constant; the constant
  closes at the next single quote that is neither doubled nor escaped. Outside a
  constant two hyphens start a comment that runs to the end of the line.

  The reader cuts a statement into plain text, string literals and comments, in order,
  or returns nothing when a literal is left open at the end of the statement. The text
  of a literal is given with a doubled quote read as one quote and an escape sequence
  kept as written, backslash and character. The accumulator holds the text of the piece
  so far. (Of the lexical rules of the warehouse only these are read: the statements
  below have no other comment form and no dollar-quoted or double-quoted text.)
\<close>

datatype sql_token = Plain string | Literal string | Comment string

datatype sql_mode = In_text | In_literal | In_comment

fun sql_tokens_from :: "sql_mode \<Rightarrow> string \<Rightarrow> string \<Rightarrow> sql_token list option" where
  "sql_tokens_from In_text acc [] = Some [Plain acc]"
| "sql_tokens_from In_comment acc [] = Some [Comment acc]"
| "sql_tokens_from In_literal acc [] = None"
| "sql_tokens_from In_text acc (c # cs) =
     (if c = squote then map_option (Cons (Plain acc)) (sql_tokens_from In_literal [] cs)
      else if c = CHR ''-'' then
        (case cs of
           [] \<Rightarrow> sql_tokens_from In_text (acc @ [c]) cs
         | d # ds \<Rightarrow>
             if d = CHR ''-'' then map_option (Cons (Plain acc)) (sql_tokens_from In_comment [] ds)
             else sql_tokens_from In_text (acc @ [c]) cs)
      else sql_tokens_from In_text (acc @ [c]) cs)"
| "sql_tokens_from In_comment acc (c # cs) =
     (if c = linefeed then map_option (Cons (Comment acc)) (sql_tokens_from In_text [linefeed] cs)
      else sql_tokens_from In_comment (acc @ [c]) cs)"
| "sql_tokens_from In_literal acc (c # cs) =
     (if c = backslash then
        (case cs of
           [] \<Rightarrow> None
         | d # ds \<Rightarrow> sql_tokens_from In_literal (acc @ [backslash, d]) ds)
      else if c = squote then
        (case cs of
           [] \<Rightarrow> Some [Literal acc, Plain []]
         | d # ds \<Rightarrow>
             if d = squote then sql_tokens_from In_literal (acc @ [squote]) ds
             else map_option (Cons (Literal acc)) (sql_tokens_from In_text [] cs))
      else sql_tokens_from In_literal (acc @ [c]) cs)"

definition sql_tokens :: "string \<Rightarrow> sql_token list option" where
  "sql_tokens s = sql_tokens_from In_text [] s"

text \<open>
  The claim about escaping, in its own words: the statement embeds the question as a
  single well-formed string literal. The statement is the text of the template up to the
  model name, the literal of the model name, the text between the two arguments, one
  literal holding the prompt followed by the question, and the closing text of the
  template; nothing of the question lies outside the literal.
\<close>

definition embeds_question_spec :: "string \<Rightarrow> string \<Rightarrow> bool" where
  "embeds_question_spec question statement =
     (sql_tokens statement =
        Some [Plain ([linefeed] @ ''    SELECT SNOWFLAKE.CORTEX.COMPLETE('' @ [linefeed] @ ''      ''),
              Literal ''mistral-large2'',
              Plain ('','' @ [linefeed] @ ''      ''),
              Literal (completion_prompt @ question),
              Plain ([linefeed] @ ''    ) as RESPONSE'' @ [linefeed] @ ''  '')])"

subsection \<open>Example platforms\<close>

definition no_crypto :: crypto where
  "no_crypto =
     \<lparr> publicKeyFingerprint = (\<lambda>k. Inl (new_Error ''unsupported'')),
       rsaSha256Sign = (\<lambda>k d. Inl (new_Error ''unsupported'')),
       dateNow = 1700000000000 \<rparr>"

definition fake_crypto :: crypto where
  "fake_crypto =
     \<lparr> publicKeyFingerprint = (\<lambda>k. Inr ''FP''),
       rsaSha256Sign = (\<lambda>k d. Inr ''SIG''),
       dateNow = 1700000000999 \<rparr>"

text \<open>An agent call that is aborted, and one that fails with an HTTP error.\<close>

definition abort_error :: JsError where
  "abort_error =
     \<lparr> message = Some ''This operation was aborted'', code = Some 20,
       isError = True, isDOMException = True \<rparr>"

definition aborted_agent :: agent where
  "aborted_agent = (\<lambda>url tok tokenType question. Inl abort_error)"

definition failing_agent :: agent where
  "failing_agent = (\<lambda>url tok tokenType question. Inl (new_Error ''Cortex Agent API error: 500 - boom''))"

definition answering_world :: world where
  "answering_world =
     \<lparr> environ = (\<lambda>tr. pat_env ''abc123''),
       connectAsync = (\<lambda>tr c. None),
       execute = (\<lambda>tr c s. Inr (Some [[(''RESPONSE'', ''Forty-two.'')]])) \<rparr>"

definition key_env :: env where
  "key_env =
     empty_env\<lparr> SNOWFLAKE_ACCOUNT := Some ''XY12345.US-EAST-1.aws'',
                 SNOWFLAKE_USER := Some ''Alice'',
                 SNOWFLAKE_PRIVATE_KEY := Some (''KEY'' @ [backslash] @ ''nDATA''),
                 SNOWFLAKE_PRIVATE_KEY_PATH := Some ''/keys/rsa_key.p8'',
                 fs := (\<lambda>p. if p = ''/keys/rsa_key.p8'' then Content ''FILEKEY'' else Missing) \<rparr>"

section \<open>Properties of the string helpers\<close>

lemma starts_with_iff: "starts_with s p \<longleftrightarrow> take (length p) s = p"
  by (induction s p rule: starts_with.induct) auto

lemma str_includes_iff: "str_includes s p \<longleftrightarrow> (\<exists>a b. s = a @ p @ b)"
proof (induction s)
  case Nil
  then show ?case by auto
next
  case (Cons c cs)
  have pre: "starts_with (c # cs) p \<longleftrightarrow> (\<exists>b. c # cs = p @ b)"
    unfolding starts_with_iff by (metis append_eq_conv_conj)
  show ?case
  proof
    assume "str_includes (c # cs) p"
    then consider "starts_with (c # cs) p" | "str_includes cs p" by auto
    then show "\<exists>a b. c # cs = a @ p @ b"
    proof cases
      case 1
      then obtain b where "c # cs = p @ b" using pre by blast
      then have "c # cs = [] @ p @ b" by simp
      then show ?thesis by blast
    next
      case 2
      then obtain a b where "cs = a @ p @ b" using Cons.IH by blast
      then have "c # cs = (c # a) @ p @ b" by simp
      then show ?thesis by blast
    qed
  next
    assume "\<exists>a b. c # cs = a @ p @ b"
    then obtain a b where ab: "c # cs = a @ p @ b" by blast
    show "str_includes (c # cs) p"
    proof (cases a)
      case Nil
      then have "starts_with (c # cs) p" using ab pre by auto
      then show ?thesis by simp
    next
      case (Cons x xs)
      then have "cs = xs @ p @ b" using ab by simp
      then have "str_includes cs p" using Cons.IH by blast
      then show ?thesis by simp
    qed
  qed
qed

lemma replace_backslash_n_Nil_iff: "replace_backslash_n s = [] \<longleftrightarrow> s = []"
  by (induction s rule: replace_backslash_n.induct) auto

section \<open>The credential resolver\<close>

lemma truthy_getOAuthToken: "truthy (getOAuthToken e) = applicable e oauth"
  by (simp add: truthy_def getOAuthToken_def split: fs_entry.splits)

lemma truthy_getPrivateKey: "truthy (getPrivateKey e) = key_resolvable e"
  by (auto simp: truthy_def getPrivateKey_def readKeyFile_def key_resolvable_def
      replace_backslash_n_Nil_iff split: option.splits fs_entry.splits)


lemma detect_first_applicable: "find (applicable e) priority = Some (detectAuthMethod e)"
  by (simp add: priority_def detectAuthMethod_def truthy_getOAuthToken truthy_getPrivateKey)

text \<open>
  Claim C2. For every environment, \<open>detectAuthMethod\<close> returns the first applicable
  method of the order oauth, keypair, pat, password, browser. A token file with a
  non-empty content gives oauth whatever else is set; with no token file, a resolvable
  private key and a configured user name give keypair whatever the token and password
  variables hold; and browser is returned exactly when none of the first four applies.
\<close>

theorem detectAuthMethod_priority:
  "find (applicable e) priority = Some (detectAuthMethod e)
   \<and> (fs e tokenPath = Content s \<and> s \<noteq> [] \<longrightarrow> detectAuthMethod e = oauth)
   \<and> (fs e tokenPath = Missing \<and> key_resolvable e \<and> truthy (SNOWFLAKE_USER e)
        \<longrightarrow> detectAuthMethod e = keypair)
   \<and> (detectAuthMethod e = browser \<longleftrightarrow>
        \<not> applicable e oauth \<and> \<not> applicable e keypair \<and> \<not> applicable e pat
        \<and> \<not> applicable e password)"
proof (intro conjI)
  show "find (applicable e) priority = Some (detectAuthMethod e)"
    by (rule detect_first_applicable)
  show "fs e tokenPath = Content s \<and> s \<noteq> [] \<longrightarrow> detectAuthMethod e = oauth"
    by (simp add: detectAuthMethod_def truthy_def getOAuthToken_def)
  show "fs e tokenPath = Missing \<and> key_resolvable e \<and> truthy (SNOWFLAKE_USER e)
        \<longrightarrow> detectAuthMethod e = keypair"
  proof
    assume a: "fs e tokenPath = Missing \<and> key_resolvable e \<and> truthy (SNOWFLAKE_USER e)"
    then have "\<not> truthy (getOAuthToken e)" by (simp add: truthy_def getOAuthToken_def)
    then show "detectAuthMethod e = keypair"
      using a by (simp add: detectAuthMethod_def truthy_getPrivateKey)
  qed
  show "detectAuthMethod e = browser \<longleftrightarrow>
        \<not> applicable e oauth \<and> \<not> applicable e keypair \<and> \<not> applicable e pat
        \<and> \<not> applicable e password"
    by (simp add: detectAuthMethod_def truthy_getOAuthToken truthy_getPrivateKey)
qed

text \<open>
  The theorem at work: a token file next to a key, a user, a token variable and a
  password gives oauth; without the token file the same environment gives keypair; the
  empty environment gives browser.
\<close>

theorem detectAuthMethod_priority_witness:
  "fs (crowded_env (Content ''tok1'')) tokenPath = Content ''tok1''
   \<and> detectAuthMethod (crowded_env (Content ''tok1'')) = oauth
   \<and> fs (crowded_env Missing) tokenPath = Missing
   \<and> key_resolvable (crowded_env Missing)
   \<and> truthy (SNOWFLAKE_USER (crowded_env Missing))
   \<and> detectAuthMethod (crowded_env Missing) = keypair
   \<and> find (applicable (crowded_env Missing)) priority = Some keypair
   \<and> detectAuthMethod empty_env = browser"
  using detectAuthMethod_priority[of "crowded_env (Content ''tok1'')" "''tok1''"]
    detectAuthMethod_priority[of "crowded_env Missing"]
    detectAuthMethod_priority[of empty_env]
  by (simp add: crowded_env_def empty_env_def key_resolvable_def truthy_def)

section \<open>Private-key resolution\<close>

lemma first_char_replace:
  "replace_backslash_n (b # cs) = x # r \<Longrightarrow> x = linefeed \<or> x = b"
  by (cases cs) (auto split: if_splits)

lemma replace_no_escape:
  "\<not> str_includes (replace_backslash_n s) [backslash, CHR ''n'']"
proof (induction s rule: replace_backslash_n.induct)
  case (1 a b cs)
  show ?case
  proof (cases "a = backslash \<and> b = CHR ''n''")
    case True
    then show ?thesis using 1 by (simp add: linefeed_def backslash_def)
  next
    case False
    obtain x r where xr: "replace_backslash_n (b # cs) = x # r"
      by (metis list.exhaust replace_backslash_n_Nil_iff list.distinct(1))
    then have "x = linefeed \<or> x = b" by (rule first_char_replace)
    then have "\<not> (a = backslash \<and> x = CHR ''n'')"
      using False by (auto simp: linefeed_def)
    then show ?thesis using 1(2) False xr by auto
  qed
qed (auto simp: backslash_def)

lemma replace_append:
  "replace_backslash_n (xs @ [backslash, CHR ''n''] @ ys) =
   replace_backslash_n xs @ [linefeed] @ replace_backslash_n ys"
  by (induction xs rule: replace_backslash_n.induct) (auto simp: backslash_def)

lemma replace_id:
  "\<not> str_includes s [backslash, CHR ''n''] \<Longrightarrow> replace_backslash_n s = s"
  by (induction s rule: replace_backslash_n.induct) auto

lemma no_key_without_sources:
  "\<not> truthy (SNOWFLAKE_PRIVATE_KEY e) \<Longrightarrow> \<not> key_file_readable e \<Longrightarrow> getPrivateKey e = None"
  by (auto simp: getPrivateKey_def readKeyFile_def key_file_readable_def truthy_def
      split: option.splits fs_entry.splits)

text \<open>
  Claim C9. Inline key material, when configured, is what \<open>getPrivateKey\<close> resolves,
  whatever the key-file path says, with every backslash-n sequence replaced by a line
  feed: the resolved key contains no such sequence any more, each occurrence has become
  one line feed, and material without the sequence is unchanged. With neither inline
  material nor a readable key file there is no key, and the resolver does not return
  keypair.
\<close>

theorem getPrivateKey_resolution:
  "(SNOWFLAKE_PRIVATE_KEY e = Some k \<and> k \<noteq> [] \<longrightarrow>
      getPrivateKey e = Some (replace_backslash_n k)
      \<and> \<not> str_includes (replace_backslash_n k) [backslash, CHR ''n''])
   \<and> replace_backslash_n (xs @ [backslash, CHR ''n''] @ ys) =
       replace_backslash_n xs @ [linefeed] @ replace_backslash_n ys
   \<and> (\<not> str_includes k [backslash, CHR ''n''] \<longrightarrow> replace_backslash_n k = k)
   \<and> (\<not> truthy (SNOWFLAKE_PRIVATE_KEY e) \<and> \<not> key_file_readable e \<longrightarrow>
      getPrivateKey e = None \<and> detectAuthMethod e \<noteq> keypair)"
proof (intro conjI impI)
  assume "SNOWFLAKE_PRIVATE_KEY e = Some k \<and> k \<noteq> []"
  then show "getPrivateKey e = Some (replace_backslash_n k)"
    by (simp add: getPrivateKey_def)
next
  show "\<not> str_includes (replace_backslash_n k) [backslash, CHR ''n'']"
    by (rule replace_no_escape)
next
  show "replace_backslash_n (xs @ [backslash, CHR ''n''] @ ys) =
       replace_backslash_n xs @ [linefeed] @ replace_backslash_n ys"
    by (rule replace_append)
next
  assume "\<not> str_includes k [backslash, CHR ''n'']"
  then show "replace_backslash_n k = k" by (rule replace_id)
next
  assume a: "\<not> truthy (SNOWFLAKE_PRIVATE_KEY e) \<and> \<not> key_file_readable e"
  then show none: "getPrivateKey e = None" by (simp add: no_key_without_sources)
  then show "detectAuthMethod e \<noteq> keypair"
    by (simp add: detectAuthMethod_def truthy_def)
qed

text \<open>
  The theorem at work: inline material \<^verbatim>\<open>KEY\nDATA\<close> (with the two characters
  backslash and n) next to a readable key file resolves to the inline material with a
  line feed; the empty environment has no key.
\<close>

theorem getPrivateKey_resolution_witness:
  "SNOWFLAKE_PRIVATE_KEY key_env = Some (''KEY'' @ [backslash] @ ''nDATA'')
   \<and> key_file_readable key_env
   \<and> getPrivateKey key_env = Some (''KEY'' @ [linefeed] @ ''DATA'')
   \<and> \<not> truthy (SNOWFLAKE_PRIVATE_KEY empty_env)
   \<and> \<not> key_file_readable empty_env
   \<and> getPrivateKey empty_env = None
   \<and> detectAuthMethod empty_env \<noteq> keypair"
  using getPrivateKey_resolution[of key_env "''KEY'' @ [backslash] @ ''nDATA''" "''KEY''" "''DATA''"]
    getPrivateKey_resolution[of empty_env "[]" "[]" "[]"]
  by (simp add: key_env_def empty_env_def key_file_readable_def truthy_def)

section \<open>The session manager\<close>

declare query.simps [simp del]

lemma getConfig_method: "method_of (fst (getConfig e)) = detectAuthMethod e"
  by (cases "detectAuthMethod e")
     (simp_all add: getConfig_def method_of_def base_options_def Let_def)

lemma getConfig_token_oauth:
  "detectAuthMethod e = oauth \<Longrightarrow> token (fst (getConfig e)) = getOAuthToken e"
  by (simp add: getConfig_def Let_def)

lemma consistent_emit [simp]: "consistent (emit evs st) = consistent st"
  by (simp add: consistent_def emit_def split: option.splits)


lemma connect_new_unfold:
  "connect_new w m tok st =
     (case connectAsync w
             (trace st @ (case connection st of None \<Rightarrow> [] | Some old \<Rightarrow> [Log_reconnecting, Call_destroy old])
                @ [Log_connecting m] @ snd (getConfig (config_env w m st))
                @ [Call_connect (next_connection w m st)])
             (next_connection w m st) of
        Some err \<Rightarrow>
          (Inl err,
           emit ((case connection st of None \<Rightarrow> [] | Some old \<Rightarrow> [Log_reconnecting, Call_destroy old])
                @ [Log_connecting m] @ snd (getConfig (config_env w m st))
                @ [Call_connect (next_connection w m st)]) st)
      | None \<Rightarrow>
          (Inr (next_connection w m st),
           emit ((case connection st of None \<Rightarrow> [] | Some old \<Rightarrow> [Log_reconnecting, Call_destroy old])
                @ [Log_connecting m] @ snd (getConfig (config_env w m st))
                @ [Call_connect (next_connection w m st)]) st
             \<lparr> connection := Some (next_connection w m st), cachedToken := tok,
               cachedAuthMethod := Some m \<rparr>))"
  by (cases "connection st")
     (simp_all add: connect_new_def Let_def emit_def next_connection_def config_env_def
        split: option.splits)






lemma trace_connect_new:
  "trace (snd (connect_new w m tok st)) =
     trace st @ (case connection st of None \<Rightarrow> [] | Some old \<Rightarrow> [Log_reconnecting, Call_destroy old])
       @ [Log_connecting m] @ snd (getConfig (config_env w m st))
       @ [Call_connect (next_connection w m st)]"
  unfolding connect_new_unfold by (simp add: emit_def split: option.splits)

lemma connect_new_changes: "snd (connect_new w m tok st) \<noteq> st"
proof
  assume "snd (connect_new w m tok st) = st"
  then have "length (trace (snd (connect_new w m tok st))) = length (trace st)" by simp
  then show False unfolding trace_connect_new by simp
qed


lemma trace_attempt:
  "trace (snd (attempt w s st)) =
     trace (snd (getConnection w st)) @
       (case fst (getConnection w st) of Inl err \<Rightarrow> [] | Inr conn \<Rightarrow> [Call_execute conn s])"
  by (cases "getConnection w st")
     (auto simp: attempt_def Let_def emit_def split: sum.splits)


lemma oauth_env_facts:
  "t \<noteq> [] \<Longrightarrow> detectAuthMethod (oauth_env t) = oauth"
  "getOAuthToken (oauth_env t) = Some t"
  by (simp_all add: oauth_env_def empty_env_def detectAuthMethod_def getOAuthToken_def truthy_def)

lemma oauth_session_facts:
  "t \<noteq> [] \<Longrightarrow> method_of (conn_options (oauth_session t n)) = oauth"
  "t \<noteq> [] \<Longrightarrow> token (conn_options (oauth_session t n)) = Some t"
  "t \<noteq> [] \<Longrightarrow> snd (getConfig (oauth_env t)) = []"
  by (simp_all add: oauth_session_def getConfig_method oauth_env_facts getConfig_token_oauth)
     (simp add: getConfig_def oauth_env_facts)







lemma raced_state_eq:
  "raced_state =
     \<lparr> connection = Some (oauth_session ''tok2'' 1), cachedToken = Some ''tok1'',
       cachedAuthMethod = Some oauth,
       trace = [Log_connecting oauth, Call_connect (oauth_session ''tok2'' 1),
                Call_execute (oauth_session ''tok2'' 1) ''SELECT 1''] \<rparr>"
  unfolding raced_state_def
  by (subst query.simps)
     (simp add: attempt_def getConnection_def connect_new_def emit_def initial_state_def
      racing_world_def oauth_env_facts oauth_session_facts truthy_def Let_def oauth_session_def)

text \<open>
  Where the environment does change in the middle of a \<^verbatim>\<open>getConnection\<close> call, the
  cached token is not the token of the session. The token file held \<open>tok1\<close> when the call
  began and \<open>tok2\<close> when \<^verbatim>\<open>getConfig()\<close> read it: the session is built with \<open>tok2\<close>
  beside the cached token \<open>tok1\<close>, and the next call, which finds the token file at
  \<open>tok2\<close> as the session has it, does not reuse the session.
\<close>

lemma token_rotated_during_connect:
  "reachable racing_world raced_state
   \<and> \<not> stable_reads racing_world
   \<and> connection raced_state = Some (oauth_session ''tok2'' 1)
   \<and> method_of (conn_options (oauth_session ''tok2'' 1)) = oauth
   \<and> token (conn_options (oauth_session ''tok2'' 1)) = Some ''tok2''
   \<and> cachedToken raced_state = Some ''tok1''
   \<and> detectAuthMethod (environ racing_world (trace raced_state)) = oauth
   \<and> getOAuthToken (environ racing_world (trace raced_state)) = Some ''tok2''
   \<and> getConnection racing_world raced_state \<noteq> (Inr (oauth_session ''tok2'' 1), raced_state)"
proof -
  have r: "reachable racing_world raced_state"
    unfolding raced_state_def by (rule reachable.after_query[OF reachable.start])
  have ne: "oauth_env ''tok2'' \<noteq> oauth_env ''tok1''"
  proof
    assume "oauth_env ''tok2'' = oauth_env ''tok1''"
    then have "getOAuthToken (oauth_env ''tok2'') = getOAuthToken (oauth_env ''tok1'')" by simp
    then show False by (simp add: oauth_env_facts)
  qed
  have ns: "\<not> stable_reads racing_world"
  proof
    assume "stable_reads racing_world"
    then have "environ racing_world ([] @ [Log_connecting oauth]) = environ racing_world []"
      unfolding stable_reads_def by blast
    then show False using ne by (simp add: racing_world_def)
  qed
  have e: "environ racing_world (trace raced_state) = oauth_env ''tok2''"
    by (simp add: raced_state_eq racing_world_def)
  have c: "connection raced_state = Some (oauth_session ''tok2'' 1)"
    "cachedAuthMethod raced_state = Some oauth" "cachedToken raced_state = Some ''tok1''"
    by (simp_all add: raced_state_eq)
  have g: "getConnection racing_world raced_state =
             connect_new racing_world oauth (Some ''tok2'') raced_state"
    unfolding getConnection_def Let_def e by (simp add: oauth_env_facts truthy_def c)
  have "snd (getConnection racing_world raced_state) \<noteq> raced_state"
    unfolding g by (rule connect_new_changes)
  then have n: "getConnection racing_world raced_state \<noteq> (Inr (oauth_session ''tok2'' 1), raced_state)"
    by auto
  show ?thesis
    unfolding e using r ns n by (simp add: c oauth_env_facts oauth_session_facts)
qed

lemma pat_env_facts:
  "t \<noteq> [] \<Longrightarrow> detectAuthMethod (pat_env t) = pat"
  "t \<noteq> [] \<Longrightarrow> token (fst (getConfig (pat_env t))) = Some t"
  "t \<noteq> [] \<Longrightarrow> snd (getConfig (pat_env t)) = []"
  by (simp_all add: pat_env_def empty_env_def detectAuthMethod_def getOAuthToken_def truthy_def
      getPrivateKey_def readKeyFile_def getConfig_def)



section \<open>The query executor\<close>

lemma getConfig_events:
  "filter is_execute (snd (getConfig e)) = []"
  "filter is_connect (snd (getConfig e)) = []"
  "filter is_query_error (snd (getConfig e)) = []"
  by (simp_all add: getConfig_def Let_def)

lemma getConnection_events:
  "\<exists>evs. trace (snd (getConnection w st)) = trace st @ evs \<and> bounded_events 0 1 0 evs"
proof -
  let ?e = "environ w (trace st)"
  let ?tok = "if detectAuthMethod ?e = oauth then getOAuthToken ?e else None"
  have new: "\<exists>evs. trace (snd (connect_new w (detectAuthMethod ?e) ?tok st)) = trace st @ evs
      \<and> bounded_events 0 1 0 evs"
    unfolding trace_connect_new
    by (auto simp: bounded_events_def getConfig_events split: option.splits)
  have same: "\<exists>evs. trace st = trace st @ evs \<and> bounded_events 0 1 0 evs"
    by (simp add: bounded_events_def)
  show ?thesis
    unfolding getConnection_def Let_def using new same
    by (auto split: option.splits simp del: ex_simps)
qed

lemma attempt_events:
  "\<exists>evs. trace (snd (attempt w s st)) = trace st @ evs \<and> bounded_events 1 1 0 evs"
proof -
  obtain evs where e: "trace (snd (getConnection w st)) = trace st @ evs" "bounded_events 0 1 0 evs"
    using getConnection_events by blast
  let ?more = "case fst (getConnection w st) of Inl err \<Rightarrow> [] | Inr conn \<Rightarrow> [Call_execute conn s]"
  have "trace (snd (attempt w s st)) = trace st @ (evs @ ?more)"
    unfolding trace_attempt e by simp
  moreover have "bounded_events 1 1 0 (evs @ ?more)"
    using e(2) by (auto simp: bounded_events_def split: sum.splits)
  ultimately show ?thesis by blast
qed

lemma query_unfold_ok:
  "attempt w s st = (Inr rows, st1) \<Longrightarrow> query w s retries st = (Inr rows, st1)"
  by (subst query.simps) simp

lemma query_unfold_stop:
  "attempt w s st = (Inl err, st1) \<Longrightarrow> \<not> (retries > 0 \<and> isRetryableError err) \<Longrightarrow>
   query w s retries st = (Inl err, emit [Log_query_error (message err)] st1)"
  by (subst query.simps) (auto simp: Let_def)

lemma query_unfold_retry:
  "attempt w s st = (Inl err, st1) \<Longrightarrow> retries > 0 \<Longrightarrow> isRetryableError err \<Longrightarrow>
   query w s retries st =
     query w s (retries - 1) (emit [Log_query_error (message err)] st1\<lparr>connection := None\<rparr>)"
  by (subst query.simps) (simp add: Let_def)

lemma query_events:
  "\<exists>evs. trace (snd (query w s retries st)) = trace st @ evs
     \<and> bounded_events (nat retries + 1) (nat retries + 1) (nat retries + 1) evs"
proof (induction w s retries st rule: query.induct)
  case (1 w s retries st)
  obtain r st1 where a: "attempt w s st = (r, st1)" by (cases "attempt w s st")
  obtain evs1 where e1: "trace st1 = trace st @ evs1" "bounded_events 1 1 0 evs1"
    using attempt_events[of w s st] a by auto
  show ?case
  proof (cases r)
    case (Inr rows)
    then have "query w s retries st = (Inr rows, st1)" using a by (simp add: query_unfold_ok)
    then show ?thesis using e1 by (auto simp: bounded_events_def)
  next
    case (Inl err)
    show ?thesis
    proof (cases "retries > 0 \<and> isRetryableError err")
      case False
      then have "query w s retries st = (Inl err, emit [Log_query_error (message err)] st1)"
        using a Inl by (simp add: query_unfold_stop)
      then have "trace (snd (query w s retries st)) = trace st @ (evs1 @ [Log_query_error (message err)])"
        using e1 by (simp add: emit_def)
      moreover have "bounded_events (nat retries + 1) (nat retries + 1) (nat retries + 1)
          (evs1 @ [Log_query_error (message err)])"
        using e1(2) by (simp add: bounded_events_def)
      ultimately show ?thesis by blast
    next
      case True
      let ?st2 = "emit [Log_query_error (message err)] st1\<lparr>connection := None\<rparr>"
      have q: "query w s retries st = query w s (retries - 1) ?st2"
        using a Inl True by (simp add: query_unfold_retry)
      obtain evs2 where e2: "trace (snd (query w s (retries - 1) ?st2)) = trace ?st2 @ evs2"
        "bounded_events (nat (retries - 1) + 1) (nat (retries - 1) + 1) (nat (retries - 1) + 1) evs2"
        using 1(1)[OF a[symmetric, unfolded Inl] refl refl True] by blast
      have n: "nat (retries - 1) + 1 = nat retries" using True by arith
      have "trace (snd (query w s retries st)) =
          trace st @ (evs1 @ [Log_query_error (message err)] @ evs2)"
        unfolding q e2 using e1 by (simp add: emit_def)
      moreover have "bounded_events (nat retries + 1) (nat retries + 1) (nat retries + 1)
          (evs1 @ [Log_query_error (message err)] @ evs2)"
        using e1(2) e2(2) unfolding n by (simp add: bounded_events_def)
      ultimately show ?thesis by blast
    qed
  qed
qed

lemma query_error_origin:
  "query w s retries st = (Inl err, st') \<Longrightarrow>
   \<exists>st0 st1. attempt w s st0 = (Inl err, st1) \<and> st' = emit [Log_query_error (message err)] st1"
proof (induction w s retries st rule: query.induct)
  case (1 w s retries st)
  obtain r st1 where a: "attempt w s st = (r, st1)" by (cases "attempt w s st")
  show ?case
  proof (cases r)
    case (Inr rows)
    then have "query w s retries st = (Inr rows, st1)" using a by (simp add: query_unfold_ok)
    then show ?thesis using 1(2) by simp
  next
    case (Inl e1)
    show ?thesis
    proof (cases "retries > 0 \<and> isRetryableError e1")
      case False
      then have "query w s retries st = (Inl e1, emit [Log_query_error (message e1)] st1)"
        using a Inl by (simp add: query_unfold_stop)
      then show ?thesis using 1(2) a Inl by auto
    next
      case True
      let ?st2 = "emit [Log_query_error (message e1)] st1\<lparr>connection := None\<rparr>"
      have q: "query w s retries st = query w s (retries - 1) ?st2"
        using a Inl True by (simp add: query_unfold_retry)
      show ?thesis
        using 1(1)[OF a[symmetric, unfolded Inl] refl refl True] 1(2) unfolding q by blast
    qed
  qed
qed

lemma retry_state_connects:
  assumes "connection st = None"
  shows "trace (snd (getConnection w st)) =
     trace st @ [Log_connecting (detectAuthMethod (environ w (trace st)))]
       @ snd (getConfig (config_env w (detectAuthMethod (environ w (trace st))) st))
       @ [Call_connect (next_connection w (detectAuthMethod (environ w (trace st))) st)]"
  unfolding getConnection_def Let_def using assms
  by (simp add: trace_connect_new)

text \<open>
  Claim C3. With the default budget of one retry, \<open>query\<close> makes at most two attempts:
  when the first attempt fails with a retryable error, the cached connection is cleared,
  so that the second attempt has to connect again, and the result of the query is the
  result of that second attempt, whose failure, retryable or not, is the one propagated;
  when the first attempt succeeds or fails with another error there is no second one.
  In every case the query returns, having executed at most two statements, connected at
  most twice and printed at most two error lines.
\<close>

theorem query_retries_at_most_once:
  fixes w :: world and s :: string and st st1 :: state and err :: JsError
  defines "dropped \<equiv> emit [Log_query_error (message err)] st1\<lparr>connection := None\<rparr>"
  shows "(attempt w s st = (Inl err, st1) \<and> isRetryableError err \<longrightarrow>
        query w s 1 st =
          (case attempt w s dropped of
             (Inr rows, st2) \<Rightarrow> (Inr rows, st2)
           | (Inl err2, st2) \<Rightarrow> (Inl err2, emit [Log_query_error (message err2)] st2))
        \<and> trace (snd (getConnection w dropped)) =
            trace dropped @ [Log_connecting (detectAuthMethod (environ w (trace dropped)))]
              @ snd (getConfig (config_env w (detectAuthMethod (environ w (trace dropped))) dropped))
              @ [Call_connect (next_connection w (detectAuthMethod (environ w (trace dropped))) dropped)])
     \<and> (attempt w s st = (Inl err, st1) \<and> \<not> isRetryableError err \<longrightarrow>
        query w s 1 st = (Inl err, emit [Log_query_error (message err)] st1))
     \<and> (attempt w s st = (Inr rows, st1) \<longrightarrow> query w s 1 st = (Inr rows, st1))
     \<and> (\<exists>evs. trace (snd (query w s 1 st)) = trace st @ evs \<and> bounded_events 2 2 2 evs)"
proof (intro conjI impI)
  assume a: "attempt w s st = (Inl err, st1) \<and> isRetryableError err"
  then have q: "query w s 1 st = query w s 0 dropped"
    using query_unfold_retry[of w s st err st1 1] by (simp add: dropped_def)
  obtain r st2 where b: "attempt w s dropped = (r, st2)" by (cases "attempt w s dropped")
  show "query w s 1 st =
          (case attempt w s dropped of
             (Inr rows, st2) \<Rightarrow> (Inr rows, st2)
           | (Inl err2, st2) \<Rightarrow> (Inl err2, emit [Log_query_error (message err2)] st2))"
  proof (cases r)
    case (Inl err2)
    then show ?thesis unfolding q using b query_unfold_stop[of w s dropped err2 st2 0] by simp
  next
    case (Inr rows)
    then show ?thesis unfolding q using b query_unfold_ok[of w s dropped rows st2 0] by simp
  qed
  have "connection dropped = None" by (simp add: dropped_def)
  then show "trace (snd (getConnection w dropped)) =
            trace dropped @ [Log_connecting (detectAuthMethod (environ w (trace dropped)))]
              @ snd (getConfig (config_env w (detectAuthMethod (environ w (trace dropped))) dropped))
              @ [Call_connect (next_connection w (detectAuthMethod (environ w (trace dropped))) dropped)]"
    by (rule retry_state_connects)
next
  assume "attempt w s st = (Inl err, st1) \<and> \<not> isRetryableError err"
  then show "query w s 1 st = (Inl err, emit [Log_query_error (message err)] st1)"
    by (simp add: query_unfold_stop)
next
  assume "attempt w s st = (Inr rows, st1)"
  then show "query w s 1 st = (Inr rows, st1)" by (rule query_unfold_ok)
next
  show "\<exists>evs. trace (snd (query w s 1 st)) = trace st @ evs \<and> bounded_events 2 2 2 evs"
  proof -
    have two: "nat 1 + 1 = (2::nat)" by simp
    show ?thesis using query_events[of w s 1 st] unfolding two .
  qed
qed

lemma expired_is_retryable: "isRetryableError expired_error"
  by (simp add: isRetryableError_def expired_error_def new_Error_def)

lemma syntax_error_not_retryable: "\<not> isRetryableError syntax_error"
  by (simp add: isRetryableError_def syntax_error_def new_Error_def)

lemma expired_first_attempt:
  "attempt expired_world s initial_state =
     (Inl expired_error,
      \<lparr> connection = Some (pat_session ''abc123'' 1), cachedToken = None,
        cachedAuthMethod = Some pat,
        trace = [Log_connecting pat, Call_connect (pat_session ''abc123'' 1),
                 Call_execute (pat_session ''abc123'' 1) s] \<rparr>)"
  by (simp add: attempt_def getConnection_def connect_new_def emit_def initial_state_def
      expired_world_def pat_env_facts truthy_def Let_def pat_session_def)

lemma expired_second_attempt:
  "attempt expired_world s
     \<lparr> connection = None, cachedToken = None, cachedAuthMethod = Some pat,
       trace = [Log_connecting pat, Call_connect (pat_session ''abc123'' 1),
                Call_execute (pat_session ''abc123'' 1) s,
                Log_query_error (Some ''OAuth access token expired'')] \<rparr> =
     (Inl expired_error,
      \<lparr> connection = Some (pat_session ''abc123'' 5), cachedToken = None,
        cachedAuthMethod = Some pat,
        trace = [Log_connecting pat, Call_connect (pat_session ''abc123'' 1),
                 Call_execute (pat_session ''abc123'' 1) s,
                 Log_query_error (Some ''OAuth access token expired''),
                 Log_connecting pat, Call_connect (pat_session ''abc123'' 5),
                 Call_execute (pat_session ''abc123'' 5) s] \<rparr>)"
  by (simp add: attempt_def getConnection_def connect_new_def emit_def
      expired_world_def pat_env_facts truthy_def Let_def pat_session_def)

text \<open>
  The theorem at work: every statement is rejected with an expired token. The query
  makes two attempts, the second on a new connection, and propagates the second failure.
\<close>

theorem query_retries_at_most_once_witness:
  "isRetryableError expired_error
   \<and> fst (attempt expired_world ''SELECT 1'' initial_state) = Inl expired_error
   \<and> query expired_world ''SELECT 1'' 1 initial_state =
      (Inl expired_error,
       \<lparr> connection = Some (pat_session ''abc123'' 5), cachedToken = None,
         cachedAuthMethod = Some pat,
         trace = [Log_connecting pat, Call_connect (pat_session ''abc123'' 1),
                  Call_execute (pat_session ''abc123'' 1) ''SELECT 1'',
                  Log_query_error (Some ''OAuth access token expired''),
                  Log_connecting pat, Call_connect (pat_session ''abc123'' 5),
                  Call_execute (pat_session ''abc123'' 5) ''SELECT 1'',
                  Log_query_error (Some ''OAuth access token expired'')] \<rparr>)"
proof -
  let ?st1 = "\<lparr> connection = Some (pat_session ''abc123'' 1), cachedToken = None,
        cachedAuthMethod = Some pat,
        trace = [Log_connecting pat, Call_connect (pat_session ''abc123'' 1),
                 Call_execute (pat_session ''abc123'' 1) ''SELECT 1''] \<rparr>"
  have first: "attempt expired_world ''SELECT 1'' initial_state = (Inl expired_error, ?st1)"
    by (rule expired_first_attempt)
  have dropped: "emit [Log_query_error (message expired_error)] ?st1\<lparr>connection := None\<rparr> =
      \<lparr> connection = None, cachedToken = None, cachedAuthMethod = Some pat,
        trace = [Log_connecting pat, Call_connect (pat_session ''abc123'' 1),
                 Call_execute (pat_session ''abc123'' 1) ''SELECT 1'',
                 Log_query_error (Some ''OAuth access token expired'')] \<rparr>"
    by (simp add: emit_def expired_error_def new_Error_def)
  have "query expired_world ''SELECT 1'' 1 initial_state =
          (case attempt expired_world ''SELECT 1''
                  (emit [Log_query_error (message expired_error)] ?st1\<lparr>connection := None\<rparr>) of
             (Inr rows, st2) \<Rightarrow> (Inr rows, st2)
           | (Inl err2, st2) \<Rightarrow> (Inl err2, emit [Log_query_error (message err2)] st2))"
    using query_retries_at_most_once[of expired_world "''SELECT 1''" initial_state expired_error ?st1]
      first expired_is_retryable by blast
  then have "query expired_world ''SELECT 1'' 1 initial_state =
      (Inl expired_error,
       \<lparr> connection = Some (pat_session ''abc123'' 5), cachedToken = None,
         cachedAuthMethod = Some pat,
         trace = [Log_connecting pat, Call_connect (pat_session ''abc123'' 1),
                  Call_execute (pat_session ''abc123'' 1) ''SELECT 1'',
                  Log_query_error (Some ''OAuth access token expired''),
                  Log_connecting pat, Call_connect (pat_session ''abc123'' 5),
                  Call_execute (pat_session ''abc123'' 5) ''SELECT 1'',
                  Log_query_error (Some ''OAuth access token expired'')] \<rparr>)"
    unfolding dropped expired_second_attempt
    by (simp add: emit_def expired_error_def new_Error_def)
  then show ?thesis using first expired_is_retryable by simp
qed

section \<open>Classification and propagation of query failures\<close>

lemma isRetryableError_iff:
  "isRetryableError err \<longleftrightarrow>
     (\<exists>m. message err = Some m \<and>
          ((\<exists>a b. m = a @ ''OAuth access token expired'' @ b) \<or>
           (\<exists>a b. m = a @ ''terminated connection'' @ b)))
     \<or> code err = Some 407002"
  unfolding isRetryableError_def str_includes_iff
  by (cases "message err") auto

text \<open>
  Claim C4. A failure is retryable exactly when its message contains
  \<^verbatim>\<open>OAuth access token expired\<close>, or contains \<^verbatim>\<open>terminated connection\<close>, or
  its code is 407002. A failed attempt whose error is not retryable, or which finds no
  budget left, ends the query with that very error, after the line with the error's
  message has been printed; and whatever error a query ends with is the error of one of
  its attempts, unchanged, with that line printed last.
\<close>

theorem retryable_classification_and_propagation:
  "(isRetryableError err \<longleftrightarrow>
       (\<exists>m. message err = Some m \<and>
            ((\<exists>a b. m = a @ ''OAuth access token expired'' @ b) \<or>
             (\<exists>a b. m = a @ ''terminated connection'' @ b)))
       \<or> code err = Some 407002)
   \<and> (attempt w s st = (Inl err, st1) \<and> \<not> (0 < retries \<and> isRetryableError err) \<longrightarrow>
        query w s retries st = (Inl err, emit [Log_query_error (message err)] st1))
   \<and> (query w s retries st = (Inl err, st') \<longrightarrow>
        (\<exists>st0 st2. attempt w s st0 = (Inl err, st2)
           \<and> st' = emit [Log_query_error (message err)] st2))"
proof (intro conjI impI)
  show "isRetryableError err \<longleftrightarrow>
       (\<exists>m. message err = Some m \<and>
            ((\<exists>a b. m = a @ ''OAuth access token expired'' @ b) \<or>
             (\<exists>a b. m = a @ ''terminated connection'' @ b)))
       \<or> code err = Some 407002"
    by (rule isRetryableError_iff)
next
  assume "attempt w s st = (Inl err, st1) \<and> \<not> (0 < retries \<and> isRetryableError err)"
  then show "query w s retries st = (Inl err, emit [Log_query_error (message err)] st1)"
    using query_unfold_stop[of w s st err st1 retries] by blast
next
  assume "query w s retries st = (Inl err, st')"
  then show "\<exists>st0 st2. attempt w s st0 = (Inl err, st2)
           \<and> st' = emit [Log_query_error (message err)] st2"
    by (rule query_error_origin)
qed

lemma rejecting_attempt:
  "attempt rejecting_world s initial_state =
     (Inl syntax_error,
      \<lparr> connection = Some (pat_session ''abc123'' 1), cachedToken = None,
        cachedAuthMethod = Some pat,
        trace = [Log_connecting pat, Call_connect (pat_session ''abc123'' 1),
                 Call_execute (pat_session ''abc123'' 1) s] \<rparr>)"
  by (simp add: attempt_def getConnection_def connect_new_def emit_def initial_state_def
      rejecting_world_def pat_env_facts truthy_def Let_def pat_session_def)

text \<open>
  The theorem at work: a compilation error is not retryable and ends the query at once,
  with one statement executed; an expired token is retryable, but with no budget left it
  ends the query as well; a bare code 407002 is retryable.
\<close>

theorem retryable_classification_and_propagation_witness:
  "\<not> isRetryableError syntax_error
   \<and> query rejecting_world ''SELECT 1'' 1 initial_state =
      (Inl syntax_error,
       \<lparr> connection = Some (pat_session ''abc123'' 1), cachedToken = None,
         cachedAuthMethod = Some pat,
         trace = [Log_connecting pat, Call_connect (pat_session ''abc123'' 1),
                  Call_execute (pat_session ''abc123'' 1) ''SELECT 1'',
                  Log_query_error (Some ''SQL compilation error'')] \<rparr>)
   \<and> isRetryableError expired_error
   \<and> query expired_world ''SELECT 1'' 0 initial_state =
      (Inl expired_error,
       \<lparr> connection = Some (pat_session ''abc123'' 1), cachedToken = None,
         cachedAuthMethod = Some pat,
         trace = [Log_connecting pat, Call_connect (pat_session ''abc123'' 1),
                  Call_execute (pat_session ''abc123'' 1) ''SELECT 1'',
                  Log_query_error (Some ''OAuth access token expired'')] \<rparr>)
   \<and> isRetryableError \<lparr> message = None, code = Some 407002, isError = True, isDOMException = False \<rparr>"
proof -
  let ?st1 = "\<lparr> connection = Some (pat_session ''abc123'' 1), cachedToken = None,
        cachedAuthMethod = Some pat,
        trace = [Log_connecting pat, Call_connect (pat_session ''abc123'' 1),
                 Call_execute (pat_session ''abc123'' 1) ''SELECT 1''] \<rparr>"
  have "query rejecting_world ''SELECT 1'' 1 initial_state =
      (Inl syntax_error, emit [Log_query_error (message syntax_error)] ?st1)"
    using retryable_classification_and_propagation[of syntax_error rejecting_world "''SELECT 1''"
        initial_state ?st1 1]
      rejecting_attempt[of "''SELECT 1''"] syntax_error_not_retryable by blast
  moreover have "query expired_world ''SELECT 1'' 0 initial_state =
      (Inl expired_error, emit [Log_query_error (message expired_error)] ?st1)"
    using retryable_classification_and_propagation[of expired_error expired_world "''SELECT 1''"
        initial_state ?st1 0]
      expired_first_attempt[of "''SELECT 1''"] by simp
  moreover have "isRetryableError \<lparr> message = None, code = Some 407002, isError = True,
      isDOMException = False \<rparr>"
    using retryable_classification_and_propagation[of "\<lparr> message = None, code = Some 407002,
      isError = True, isDOMException = False \<rparr>"] by simp
  ultimately show ?thesis
    using syntax_error_not_retryable expired_is_retryable
    by (simp add: emit_def syntax_error_def expired_error_def new_Error_def)
qed

section \<open>The JWT signer\<close>

declare show_nat.simps [simp del]

lemma b64url_digit_in_alphabet: "k < 64 \<Longrightarrow> b64url_digit k \<in> set b64url_alphabet"
  unfolding b64url_digit_def by (rule nth_mem) (simp add: b64url_alphabet_def)

lemma b64url_bytes_alphabet:
  "\<forall>b \<in> set bs. b < 256 \<Longrightarrow> set (b64url_bytes bs) \<subseteq> set b64url_alphabet"
proof (induction bs rule: b64url_bytes.induct)
  case (1 a b c rest)
  then have lt: "a < 256" "b < 256" "c < 256" by simp_all
  have "a div 4 < 64" "(a mod 4) * 16 + b div 16 < 64" "(b mod 16) * 4 + c div 64 < 64" "c mod 64 < 64"
    using lt by arith+
  then show ?case using 1 by (simp add: b64url_digit_in_alphabet)
next
  case (2 a b)
  then have lt: "a < 256" "b < 256" by simp_all
  have "a div 4 < 64" "(a mod 4) * 16 + b div 16 < 64" "(b mod 16) * 4 < 64"
    using lt by arith+
  then show ?case by (simp add: b64url_digit_in_alphabet)
next
  case (3 a)
  then have lt: "a < 256" by simp
  have "a div 4 < 64" "(a mod 4) * 16 < 64"
    using lt by arith+
  then show ?case by (simp add: b64url_digit_in_alphabet)
next
  case 4
  show ?case by simp
qed

lemma base64url_alphabet: "set (base64url s) \<subseteq> set b64url_alphabet"
  unfolding base64url_def by (rule b64url_bytes_alphabet) (simp add: String.nat_of_char_less_256)

lemma base64url_no_dot: "CHR ''.'' \<notin> set (base64url s)"
  using base64url_alphabet[of s] by (auto simp: b64url_alphabet_def)

lemma base64url_no_padding: "CHR ''='' \<notin> set (base64url s)"
  using base64url_alphabet[of s] by (auto simp: b64url_alphabet_def)

lemma split_char_segment:
  "d \<notin> set h \<Longrightarrow> split_char d (h @ d # rest) = h # split_char d rest"
  by (induction h) auto

lemma header_literal:
  "base64url (stringify_header the_header) = ''eyJhbGciOiJSUzI1NiIsInR5cCI6IkpXVCJ9''"
  by code_simp


lemma split_char_nonempty: "split_char d s \<noteq> []"
  by (induction s) (auto split: list.splits)

lemma element0_split_char: "element0 (split_char d s) = takeWhile (\<lambda>c. c \<noteq> d) s"
  using split_char_nonempty[of d]
  by (induction s) (auto simp: element0_def split: list.splits)

lemma takeWhile_strip_suffix:
  "takeWhile (\<lambda>c. c \<noteq> CHR ''.'') (strip_suffix (CHR ''.'' # suf) s) = takeWhile (\<lambda>c. c \<noteq> CHR ''.'') s"
proof (cases "ends_with s (CHR ''.'' # suf)")
  case False
  then show ?thesis by (simp add: strip_suffix_def)
next
  case True
  define p where "p = take (length s - length (CHR ''.'' # suf)) s"
  have s: "s = p @ CHR ''.'' # suf"
    using True unfolding ends_with_def p_def by (metis append_take_drop_id)
  have "strip_suffix (CHR ''.'' # suf) s = p"
    using True by (simp add: strip_suffix_def p_def)
  moreover have "takeWhile (\<lambda>c. c \<noteq> CHR ''.'') (p @ CHR ''.'' # suf) = takeWhile (\<lambda>c. c \<noteq> CHR ''.'') p"
    by (induction p) auto
  ultimately show ?thesis using s by simp
qed

lemma normalized_account_spec_formula:
  "normalized_account_spec a = takeWhile (\<lambda>c. c \<noteq> CHR ''.'') (toUpperCase a)"
  unfolding normalized_account_spec_def
  using takeWhile_strip_suffix[of "''GLOBAL''" "toUpperCase a"] by simp

lemma remove_first_before_dot:
  "takeWhile (\<lambda>c. c \<noteq> CHR ''.'') (remove_first (CHR ''.'' # ps) s) =
     (if starts_with (dropWhile (\<lambda>c. c \<noteq> CHR ''.'') s) (CHR ''.'' # ps)
      then takeWhile (\<lambda>c. c \<noteq> CHR ''.'') s
             @ takeWhile (\<lambda>c. c \<noteq> CHR ''.'') (drop (Suc (length ps)) (dropWhile (\<lambda>c. c \<noteq> CHR ''.'') s))
      else takeWhile (\<lambda>c. c \<noteq> CHR ''.'') s)"
proof (induction s)
  case Nil
  show ?case by simp
next
  case (Cons c cs)
  show ?case
  proof (cases "c = CHR ''.''")
    case True
    then show ?thesis by simp
  next
    case False
    then show ?thesis using Cons by simp
  qed
qed

lemma accountUpper_formula:
  "accountUpper a =
     (if starts_with (dropWhile (\<lambda>c. c \<noteq> CHR ''.'') (toUpperCase a)) ''.GLOBAL''
      then normalized_account_spec a
             @ takeWhile (\<lambda>c. c \<noteq> CHR ''.'') (drop (length ''.GLOBAL'') (dropWhile (\<lambda>c. c \<noteq> CHR ''.'') (toUpperCase a)))
      else normalized_account_spec a)"
  unfolding accountUpper_def element0_split_char normalized_account_spec_formula
  using remove_first_before_dot[of "''GLOBAL''" "toUpperCase a"] by simp

text \<open>
  Claim C6. The qualified identity of the signer at the account \<^verbatim>\<open>acme.globalx\<close>
  with the user \<^verbatim>\<open>alice\<close>: the code removes the first \<^verbatim>\<open>.GLOBAL\<close> although
  it is not a suffix and joins what surrounds it, where the normalisation of the
  specification keeps the segment before the first dot. On the specification's own
  example both give \<^verbatim>\<open>XY12345.ALICE\<close>.
\<close>

theorem qualifiedUsername_global_inside:
  "qualifiedUsername ''acme.globalx'' ''alice'' = ''ACMEX.ALICE''
   \<and> qualified_identity_spec ''acme.globalx'' ''alice'' = ''ACME.ALICE''
   \<and> qualifiedUsername ''XY12345.US-EAST-1.aws'' ''Alice'' = ''XY12345.ALICE''
   \<and> qualified_identity_spec ''XY12345.US-EAST-1.aws'' ''Alice'' = ''XY12345.ALICE''"
  by (simp add: qualifiedUsername_def accountUpper_def qualified_identity_spec_def
      normalized_account_spec_def strip_suffix_def ends_with_def toUpperCase_def
      toUpperCase_char_def element0_def)


lemma generateJWT_with_key:
  assumes "getPrivateKey e = Some key" and "key \<noteq> []" and "publicKeyFingerprint cr key = Inr fp"
  shows "generateJWT cr e =
     (case rsaSha256Sign cr key
             (base64url (stringify_header the_header) @ ''.'' @
              base64url (stringify_payload (the_payload (or_default (SNOWFLAKE_ACCOUNT e) [])
                 (or_default (SNOWFLAKE_USER e) []) fp (dateNow cr div 1000)))) of
        Inl err \<Rightarrow> Inl (Crypto_failed err)
      | Inr sg \<Rightarrow>
          Inr (base64url (stringify_header the_header) @ ''.'' @
               base64url (stringify_payload (the_payload (or_default (SNOWFLAKE_ACCOUNT e) [])
                 (or_default (SNOWFLAKE_USER e) []) fp (dateNow cr div 1000))) @ ''.'' @ sg))"
  using assms by (simp add: generateJWT_def Let_def)

lemma token_segments:
  "take 2 (split_char (CHR ''.'') (base64url a @ ''.'' @ base64url b @ ''.'' @ sg)) =
     [base64url a, base64url b]"
  using split_char_segment[OF base64url_no_dot, of a "base64url b @ ''.'' @ sg"]
    split_char_segment[OF base64url_no_dot, of b sg] split_char_nonempty[of "CHR ''.''" sg]
  by (cases "split_char (CHR ''.'') sg") simp_all

text \<open>
  Claim C7. With a resolvable key whose fingerprint can be computed, the token is
  header, payload and signature joined by dots: the header is the base64url text of
  \<^verbatim>\<open>{"alg":"RS256","typ":"JWT"}\<close>, the payload that of the object with issuer
  \<open>identity.SHA256:fingerprint\<close>, subject \<open>identity\<close>, issued-at the current second
  and expiry 3600 seconds later; neither segment contains a padding character. The first
  two segments of any token signed for the same environment, fingerprint and clock are
  these same two texts, whatever signature the signer returns.
\<close>

theorem generateJWT_token:
  fixes cr cr' :: crypto and e :: env and key fp sg t t' :: string
  defines "qn \<equiv> qualifiedUsername (or_default (SNOWFLAKE_ACCOUNT e) []) (or_default (SNOWFLAKE_USER e) [])"
  defines "payload \<equiv> \<lparr> iss = qn @ ''.SHA256:'' @ fp, sub = qn, iat = dateNow cr div 1000,
                          exp = dateNow cr div 1000 + 3600 \<rparr>"
  defines "headerB64 \<equiv> base64url (stringify_header \<lparr> hdr_alg = ''RS256'', hdr_typ = ''JWT'' \<rparr>)"
  defines "payloadB64 \<equiv> base64url (stringify_payload payload)"
  assumes "getPrivateKey e = Some key" and "key \<noteq> []" and "publicKeyFingerprint cr key = Inr fp"
  shows "(rsaSha256Sign cr key (headerB64 @ ''.'' @ payloadB64) = Inr sg \<longrightarrow>
            generateJWT cr e = Inr (headerB64 @ ''.'' @ payloadB64 @ ''.'' @ sg))
     \<and> (generateJWT cr e = Inr t \<longrightarrow>
            take 2 (split_char (CHR ''.'') t) = [headerB64, payloadB64])
     \<and> (publicKeyFingerprint cr' key = Inr fp \<and> dateNow cr' = dateNow cr
          \<and> generateJWT cr' e = Inr t' \<longrightarrow>
            take 2 (split_char (CHR ''.'') t') = [headerB64, payloadB64])
     \<and> headerB64 = ''eyJhbGciOiJSUzI1NiIsInR5cCI6IkpXVCJ9''
     \<and> CHR ''='' \<notin> set headerB64 \<and> CHR ''='' \<notin> set payloadB64"
proof -
  have h: "headerB64 = base64url (stringify_header the_header)"
    by (simp add: headerB64_def the_header_def)
  have p: "payloadB64 = base64url (stringify_payload (the_payload (or_default (SNOWFLAKE_ACCOUNT e) [])
                 (or_default (SNOWFLAKE_USER e) []) fp (dateNow cr div 1000)))"
    by (simp add: payloadB64_def payload_def the_payload_def qn_def)
  note g = generateJWT_with_key[OF assms(5,6,7), folded h p]
  have 1: "rsaSha256Sign cr key (headerB64 @ ''.'' @ payloadB64) = Inr sg \<longrightarrow>
            generateJWT cr e = Inr (headerB64 @ ''.'' @ payloadB64 @ ''.'' @ sg)"
    unfolding g by simp
  have 2: "generateJWT cr e = Inr t \<longrightarrow> take 2 (split_char (CHR ''.'') t) = [headerB64, payloadB64]"
    unfolding g h p using token_segments by (auto split: sum.splits)
  have 3: "publicKeyFingerprint cr' key = Inr fp \<and> dateNow cr' = dateNow cr
          \<and> generateJWT cr' e = Inr t' \<longrightarrow>
            take 2 (split_char (CHR ''.'') t') = [headerB64, payloadB64]"
  proof
    assume a: "publicKeyFingerprint cr' key = Inr fp \<and> dateNow cr' = dateNow cr
          \<and> generateJWT cr' e = Inr t'"
    then have fp': "publicKeyFingerprint cr' key = Inr fp" and dn: "dateNow cr' = dateNow cr"
      and gt: "generateJWT cr' e = Inr t'" by simp_all
    note g' = generateJWT_with_key[OF assms(5,6) fp', unfolded dn]
    show "take 2 (split_char (CHR ''.'') t') = [headerB64, payloadB64]"
      using gt unfolding g' h p using token_segments by (auto split: sum.splits)
  qed
  have 4: "headerB64 = ''eyJhbGciOiJSUzI1NiIsInR5cCI6IkpXVCJ9''"
    unfolding h by (rule header_literal)
  have 5: "CHR ''='' \<notin> set headerB64" "CHR ''='' \<notin> set payloadB64"
    unfolding headerB64_def payloadB64_def by (rule base64url_no_padding)+
  show ?thesis using 1 2 3 4 5 by blast
qed

text \<open>
  Claim C8. Signing fails with the missing-key error exactly when no private key is
  resolvable, and this for every behaviour of the cryptographic library: the check comes
  before any of its functions is called. With a key, the only failures are those the
  library itself throws.
\<close>

theorem generateJWT_missing_key:
  "(generateJWT cr e = Inl Private_key_not_available \<longleftrightarrow> \<not> truthy (getPrivateKey e))
   \<and> (truthy (getPrivateKey e) \<and> generateJWT cr e = Inl f \<longrightarrow> (\<exists>err. f = Crypto_failed err))"
  by (auto simp: generateJWT_def Let_def truthy_def split: option.splits sum.splits)

lemma show_nat_small: "n < 10 \<Longrightarrow> show_nat n = [''0123456789'' ! n]"
  by (subst show_nat.simps) simp

lemma show_nat_large: "\<not> n < 10 \<Longrightarrow> show_nat n = show_nat (n div 10) @ [''0123456789'' ! (n mod 10)]"
  by (subst show_nat.simps) simp


lemma json_string_plain:
  "json_string ''iss'' = dquote # ''iss'' @ [dquote]"
  "json_string ''sub'' = dquote # ''sub'' @ [dquote]"
  "json_string ''iat'' = dquote # ''iat'' @ [dquote]"
  "json_string ''exp'' = dquote # ''exp'' @ [dquote]"
  "json_string ''XY12345.ALICE.SHA256:FP'' = dquote # ''XY12345.ALICE.SHA256:FP'' @ [dquote]"
  "json_string ''XY12345.ALICE'' = dquote # ''XY12345.ALICE'' @ [dquote]"
  by (simp_all add: json_string_def json_escape_char_def dquote_def backslash_def linefeed_def)

lemma alice_payload_json:
  "stringify_payload \<lparr> iss = ''XY12345.ALICE.SHA256:FP'', sub = ''XY12345.ALICE'',
      iat = 1700000000, exp = 1700003600 \<rparr> =
   ''{'' @ [dquote] @ ''iss'' @ [dquote] @ '':'' @ [dquote] @ ''XY12345.ALICE.SHA256:FP'' @ [dquote]
     @ '','' @ [dquote] @ ''sub'' @ [dquote] @ '':'' @ [dquote] @ ''XY12345.ALICE'' @ [dquote]
     @ '','' @ [dquote] @ ''iat'' @ [dquote] @ '':1700000000,''
     @ [dquote] @ ''exp'' @ [dquote] @ '':1700003600}''"
  by (simp add: stringify_payload_def json_string_plain json_number_def show_nat_small show_nat_large)

lemma alice_payload_b64:
  "base64url (''{'' @ [dquote] @ ''iss'' @ [dquote] @ '':'' @ [dquote] @ ''XY12345.ALICE.SHA256:FP'' @ [dquote]
     @ '','' @ [dquote] @ ''sub'' @ [dquote] @ '':'' @ [dquote] @ ''XY12345.ALICE'' @ [dquote]
     @ '','' @ [dquote] @ ''iat'' @ [dquote] @ '':1700000000,''
     @ [dquote] @ ''exp'' @ [dquote] @ '':1700003600}'') =
   ''eyJpc3MiOiJYWTEyMzQ1LkFMSUNFLlNIQTI1NjpGUCIsInN1YiI6IlhZMTIzNDUuQUxJQ0UiLCJpYXQiOjE3MDAwMDAwMDAsImV4cCI6MTcwMDAwMzYwMH0''"
  by code_simp

lemma alice_payload_literal:
  "base64url (stringify_payload \<lparr> iss = ''XY12345.ALICE.SHA256:FP'', sub = ''XY12345.ALICE'',
      iat = 1700000000, exp = 1700003600 \<rparr>) =
   ''eyJpc3MiOiJYWTEyMzQ1LkFMSUNFLlNIQTI1NjpGUCIsInN1YiI6IlhZMTIzNDUuQUxJQ0UiLCJpYXQiOjE3MDAwMDAwMDAsImV4cCI6MTcwMDAwMzYwMH0''"
  unfolding alice_payload_json by (rule alice_payload_b64)

lemma key_env_key: "getPrivateKey key_env = Some (''KEY'' @ [linefeed] @ ''DATA'')"
  by (simp add: getPrivateKey_def key_env_def empty_env_def backslash_def)

lemma alice_identity: "qualifiedUsername ''XY12345.US-EAST-1.aws'' ''Alice'' = ''XY12345.ALICE''"
  by (simp add: qualifiedUsername_def accountUpper_def toUpperCase_def toUpperCase_char_def
      element0_def)

text \<open>
  The theorem at work: the account \<^verbatim>\<open>XY12345.US-EAST-1.aws\<close>, the user
  \<^verbatim>\<open>Alice\<close>, an inline key, a fingerprint \<open>FP\<close>, a signature \<open>SIG\<close> and the
  clock at 1700000000999 ms.
\<close>

theorem generateJWT_token_witness:
  "getPrivateKey key_env = Some (''KEY'' @ [linefeed] @ ''DATA'')
   \<and> publicKeyFingerprint fake_crypto (''KEY'' @ [linefeed] @ ''DATA'') = Inr ''FP''
   \<and> rsaSha256Sign fake_crypto (''KEY'' @ [linefeed] @ ''DATA'')
        (''eyJhbGciOiJSUzI1NiIsInR5cCI6IkpXVCJ9'' @ ''.'' @
         ''eyJpc3MiOiJYWTEyMzQ1LkFMSUNFLlNIQTI1NjpGUCIsInN1YiI6IlhZMTIzNDUuQUxJQ0UiLCJpYXQiOjE3MDAwMDAwMDAsImV4cCI6MTcwMDAwMzYwMH0'') = Inr ''SIG''
   \<and> generateJWT fake_crypto key_env =
       Inr (''eyJhbGciOiJSUzI1NiIsInR5cCI6IkpXVCJ9'' @ ''.'' @
            ''eyJpc3MiOiJYWTEyMzQ1LkFMSUNFLlNIQTI1NjpGUCIsInN1YiI6IlhZMTIzNDUuQUxJQ0UiLCJpYXQiOjE3MDAwMDAwMDAsImV4cCI6MTcwMDAwMzYwMH0''
            @ ''.'' @ ''SIG'')"
proof -
  have k: "getPrivateKey key_env = Some (''KEY'' @ [linefeed] @ ''DATA'')" by (rule key_env_key)
  have ne: "''KEY'' @ [linefeed] @ ''DATA'' \<noteq> []" by simp
  have fp: "publicKeyFingerprint fake_crypto (''KEY'' @ [linefeed] @ ''DATA'') = Inr ''FP''"
    by (simp add: fake_crypto_def)
  have sg: "\<And>d. rsaSha256Sign fake_crypto (''KEY'' @ [linefeed] @ ''DATA'') d = Inr ''SIG''"
    by (simp add: fake_crypto_def)
  have env: "or_default (SNOWFLAKE_ACCOUNT key_env) [] = ''XY12345.US-EAST-1.aws''"
    "or_default (SNOWFLAKE_USER key_env) [] = ''Alice''"
    "dateNow fake_crypto div 1000 = 1700000000"
    by (simp_all add: key_env_def empty_env_def or_default_def fake_crypto_def)
  note t = generateJWT_token[OF k ne fp, of "''SIG''", unfolded env alice_identity, THEN conjunct1]
  have "generateJWT fake_crypto key_env =
       Inr (''eyJhbGciOiJSUzI1NiIsInR5cCI6IkpXVCJ9'' @ ''.'' @
            ''eyJpc3MiOiJYWTEyMzQ1LkFMSUNFLlNIQTI1NjpGUCIsInN1YiI6IlhZMTIzNDUuQUxJQ0UiLCJpYXQiOjE3MDAwMDAwMDAsImV4cCI6MTcwMDAwMzYwMH0''
            @ ''.'' @ ''SIG'')"
    using t sg header_literal[unfolded the_header_def] alice_payload_literal by simp
  then show ?thesis using k fp sg by simp
qed

text \<open>
  The theorem at work: the empty environment has no key and signing fails with the
  missing-key error; with a key and a library that throws, the failure is the library's.
\<close>

theorem generateJWT_missing_key_witness:
  "\<not> truthy (getPrivateKey empty_env)
   \<and> generateJWT fake_crypto empty_env = Inl Private_key_not_available
   \<and> truthy (getPrivateKey key_env)
   \<and> generateJWT no_crypto key_env = Inl (Crypto_failed (new_Error ''unsupported''))
   \<and> generateJWT no_crypto key_env \<noteq> Inl Private_key_not_available"
proof -
  have a: "\<not> truthy (getPrivateKey empty_env)"
    by (simp add: getPrivateKey_def readKeyFile_def empty_env_def truthy_def)
  have b: "truthy (getPrivateKey key_env)" by (simp add: key_env_key truthy_def)
  have c: "generateJWT no_crypto key_env = Inl (Crypto_failed (new_Error ''unsupported''))"
    using generateJWT_with_key[OF key_env_key, of no_crypto] by (simp add: generateJWT_def key_env_key no_crypto_def)
  show ?thesis
    using generateJWT_missing_key[of fake_crypto empty_env] generateJWT_missing_key[of no_crypto key_env]
      a b c by simp
qed


section \<open>The statement of the fallback\<close>

lemma replace_quotes_concat:
  "replace_quotes q = concat (map (\<lambda>c. if c = squote then [squote, squote] else [c]) q)"
  by (induction q) auto

lemma prompt_plain:
  "squote \<notin> set completion_prompt" "backslash \<notin> set completion_prompt"
  by (simp_all add: completion_prompt_def squote_def backslash_def)

lemma squote_not_backslash: "squote \<noteq> backslash"
  by (simp add: squote_def backslash_def)

lemma sql_inside_plain:
  "squote \<notin> set p \<Longrightarrow> backslash \<notin> set p \<Longrightarrow>
   sql_tokens_from In_literal acc (p @ s) = sql_tokens_from In_literal (acc @ p) s"
  by (induction p arbitrary: acc) auto

lemma sql_inside_escaped:
  "backslash \<notin> set q \<Longrightarrow> rest \<noteq> [] \<Longrightarrow> hd rest \<noteq> squote \<Longrightarrow>
   sql_tokens_from In_literal acc (replace_quotes q @ squote # rest) =
     map_option (Cons (Literal (acc @ q))) (sql_tokens_from In_text [] rest)"
proof (induction q arbitrary: acc)
  case Nil
  then show ?case by (cases rest) (auto simp: squote_not_backslash)
next
  case (Cons c cs)
  have nb: "c \<noteq> backslash" "backslash \<notin> set cs" using Cons.prems(1) by auto
  show ?case
  proof (cases "c = squote")
    case True
    then show ?thesis
      using Cons.IH[OF nb(2) Cons.prems(2,3), of "acc @ [squote]"]
      by (simp add: squote_not_backslash)
  next
    case False
    then show ?thesis
      using nb(1) Cons.IH[OF nb(2) Cons.prems(2,3), of "acc @ [c]"] by simp
  qed
qed

lemma fallback_sql_head:
  "sql_tokens (fallback_sql question) =
      map_option (\<lambda>ts. Plain ([linefeed] @ ''    SELECT SNOWFLAKE.CORTEX.COMPLETE('' @ [linefeed] @ ''      '')
                          # Literal ''mistral-large2'' # Plain ('','' @ [linefeed] @ ''      '') # ts)
        (sql_tokens_from In_literal completion_prompt
           (replace_quotes question @ squote # [linefeed] @ ''    ) as RESPONSE'' @ [linefeed] @ ''  ''))"
proof -
  let ?tail = "[linefeed] @ ''    ) as RESPONSE'' @ [linefeed] @ ''  ''"
  have "sql_tokens (fallback_sql question) =
      map_option (\<lambda>ts. Plain ([linefeed] @ ''    SELECT SNOWFLAKE.CORTEX.COMPLETE('' @ [linefeed] @ ''      '')
                          # Literal ''mistral-large2'' # Plain ('','' @ [linefeed] @ ''      '') # ts)
        (sql_tokens_from In_literal [] (completion_prompt @ replace_quotes question @ squote # ?tail))"
    unfolding sql_tokens_def fallback_sql_def Let_def
    by (simp add: squote_def linefeed_def backslash_def option.map_comp comp_def)
  then show ?thesis
    using sql_inside_plain[OF prompt_plain, of "[]" "replace_quotes question @ squote # ?tail"]
    by simp
qed

lemma fallback_sql_tail:
  "sql_tokens_from In_text [] ([linefeed] @ ''    ) as RESPONSE'' @ [linefeed] @ ''  '') =
     Some [Plain ([linefeed] @ ''    ) as RESPONSE'' @ [linefeed] @ ''  '')]"
  by (simp add: squote_def linefeed_def)

text \<open>
  On a question without a backslash the doubling of the quotes is enough: the statement
  embeds the question as the claim says.
\<close>

lemma fallback_sql_without_backslash:
  assumes "backslash \<notin> set question"
  shows "embeds_question_spec question (fallback_sql question)"
proof -
  let ?tail = "[linefeed] @ ''    ) as RESPONSE'' @ [linefeed] @ ''  ''"
  have "sql_tokens_from In_literal completion_prompt (replace_quotes question @ squote # ?tail)
      = map_option (Cons (Literal (completion_prompt @ question))) (sql_tokens_from In_text [] ?tail)"
    by (rule sql_inside_escaped[OF assms]) (simp_all add: squote_def linefeed_def)
  then have second:
    "sql_tokens_from In_literal completion_prompt (replace_quotes question @ squote # ?tail)
      = Some [Literal (completion_prompt @ question), Plain ?tail]"
    unfolding fallback_sql_tail by simp
  show ?thesis
    unfolding embeds_question_spec_def fallback_sql_head second by simp
qed

lemma fallback_sql_open_literal:
  "sql_tokens (fallback_sql [backslash]) = None"
  unfolding fallback_sql_head
  by (simp add: squote_def linefeed_def backslash_def)

lemma fallback_sql_early_close:
  "sql_tokens (fallback_sql ([backslash, squote] @ '' || CURRENT_USER() --'')) =
     Some [Plain ([linefeed] @ ''    SELECT SNOWFLAKE.CORTEX.COMPLETE('' @ [linefeed] @ ''      ''),
           Literal ''mistral-large2'',
           Plain ('','' @ [linefeed] @ ''      ''),
           Literal (completion_prompt @ [backslash, squote]),
           Plain '' || CURRENT_USER() '',
           Comment [squote],
           Plain ([linefeed] @ ''    ) as RESPONSE'' @ [linefeed] @ ''  '')]"
  unfolding fallback_sql_head
  by (simp add: squote_def linefeed_def backslash_def)

text \<open>
  Claim C10. Every single quote of the question is doubled, but a backslash of the
  question is left as it is, and the warehouse reads a backslash inside a string
  literal as the start of an escape sequence. So the statement does not embed every
  question as one well-formed literal. For the question made of one backslash the
  closing quote of the template is escaped and the literal is left open: the statement
  is malformed. For the question made of a backslash, a single quote and the text
  \<^verbatim>\<open> || CURRENT_USER() --\<close> the quote of the question is escaped by the backslash
  before it, the quote added by the doubling closes the literal, and the rest of the question lies outside it, as an expression of the
  statement and a comment that hides the closing quote of the template. On the question
  \<^verbatim>\<open>What's up?\<close> the statement embeds the question as the claim says.
\<close>

theorem fallback_sql_backslash_unescaped:
  "replace_quotes question =
       concat (map (\<lambda>c. if c = squote then [squote, squote] else [c]) question)
   \<and> replace_quotes [backslash] = [backslash]
   \<and> sql_tokens (fallback_sql [backslash]) = None
   \<and> \<not> embeds_question_spec [backslash] (fallback_sql [backslash])
   \<and> replace_quotes ([backslash, squote] @ '' || CURRENT_USER() --'') =
       [backslash, squote, squote] @ '' || CURRENT_USER() --''
   \<and> sql_tokens (fallback_sql ([backslash, squote] @ '' || CURRENT_USER() --'')) =
       Some [Plain ([linefeed] @ ''    SELECT SNOWFLAKE.CORTEX.COMPLETE('' @ [linefeed] @ ''      ''),
             Literal ''mistral-large2'',
             Plain ('','' @ [linefeed] @ ''      ''),
             Literal (completion_prompt @ [backslash, squote]),
             Plain '' || CURRENT_USER() '',
             Comment [squote],
             Plain ([linefeed] @ ''    ) as RESPONSE'' @ [linefeed] @ ''  '')]
   \<and> \<not> embeds_question_spec ([backslash, squote] @ '' || CURRENT_USER() --'')
         (fallback_sql ([backslash, squote] @ '' || CURRENT_USER() --''))
   \<and> embeds_question_spec (''What'' @ [squote] @ ''s up?'')
         (fallback_sql (''What'' @ [squote] @ ''s up?''))"
proof -
  have a: "replace_quotes [backslash] = [backslash]"
    by (simp add: squote_def backslash_def)
  have b: "replace_quotes ([backslash, squote] @ '' || CURRENT_USER() --'') =
       [backslash, squote, squote] @ '' || CURRENT_USER() --''"
    by (simp add: squote_def backslash_def)
  have c: "\<not> embeds_question_spec [backslash] (fallback_sql [backslash])"
    unfolding embeds_question_spec_def fallback_sql_open_literal by simp
  have d: "\<not> embeds_question_spec ([backslash, squote] @ '' || CURRENT_USER() --'')
         (fallback_sql ([backslash, squote] @ '' || CURRENT_USER() --''))"
    unfolding embeds_question_spec_def fallback_sql_early_close by simp
  have e: "embeds_question_spec (''What'' @ [squote] @ ''s up?'')
         (fallback_sql (''What'' @ [squote] @ ''s up?''))"
    by (rule fallback_sql_without_backslash) (simp add: squote_def backslash_def)
  show ?thesis
    using a b c d e replace_quotes_concat[of question]
      fallback_sql_open_literal fallback_sql_early_close
    by blast
qed

section \<open>The natural-language gateway\<close>

lemma POST_agent_failed:
  assumes "question \<noteq> []"
    and "callCortexAgent cr ag (environ w (trace st)) question = Inl agentError"
  shows "POST w cr ag (Inr (Some question)) st =
     (if str_includes (error_message agentError) ''aborted'' \<or> isDOMException agentError
      then outer_catch (new_Error ''Request timeout'')
             (emit [Log_agent_error (error_message agentError)] st)
      else (case fallbackToDirectQuery w question
                   (emit [Log_fallback] (emit [Log_agent_error (error_message agentError)] st)) of
              (Inl err, st2) \<Rightarrow> outer_catch err st2
            | (Inr fallback, st2) \<Rightarrow>
                (Ok_json \<lparr> answer = fb_answer fallback, sql = fb_sql fallback,
                           results = fb_results fallback,
                           rowCount = row_count (fb_results fallback),
                           toolName = None, usedAgent = False, agentName = None \<rparr>, st2)))"
  using assms by (simp add: POST_def Let_def)

lemma outer_catch_timeout:
  "outer_catch (new_Error ''Request timeout'') st =
     (Error_json 504 ''Request timed out. Please try a simpler question.'',
      emit [Log_analyst_error ''Request timeout''] st)"
  by (simp add: outer_catch_def error_message_def new_Error_def Let_def)

text \<open>
  Claim C5, as amended. When the agent call fails for a question that is not empty,
  there are two cases. If the error's message contains \<^verbatim>\<open>aborted\<close> or the error is
  a \<^verbatim>\<open>DOMException\<close> (what an exceeded timeout throws), the route answers with
  status 504 and the text \<^verbatim>\<open>Request timed out. Please try a simpler question.\<close>,
  and issues no query. Otherwise it runs the text-completion statement with the question
  through \<open>query\<close>; if that succeeds the caller receives the first row's
  \<^verbatim>\<open>RESPONSE\<close> (or the fixed apology) with null sql and null results, and if it
  fails the failure goes to the route's error response.
\<close>

theorem POST_fallback_unless_aborted:
  fixes w :: world and cr :: crypto and ag :: agent and st :: state and question :: string
    and agentError :: JsError
  defines "st1 \<equiv> emit [Log_agent_error (error_message agentError)] st"
  defines "aborted \<equiv> str_includes (error_message agentError) ''aborted'' \<or> isDOMException agentError"
  assumes "question \<noteq> []"
    and "callCortexAgent cr ag (environ w (trace st)) question = Inl agentError"
  shows "(\<not> aborted \<longrightarrow>
           POST w cr ag (Inr (Some question)) st =
             (case query w (fallback_sql question) 1 (emit [Log_fallback] st1) of
                (Inr response, st2) \<Rightarrow>
                  (Ok_json \<lparr> answer = fallback_answer response, sql = None, results = None,
                             rowCount = 0, toolName = None, usedAgent = False,
                             agentName = None \<rparr>, st2)
              | (Inl err, st2) \<Rightarrow> outer_catch err st2))
     \<and> (aborted \<longrightarrow>
           POST w cr ag (Inr (Some question)) st =
             (Error_json 504 ''Request timed out. Please try a simpler question.'',
              emit [Log_analyst_error ''Request timeout''] st1))"
proof (intro conjI impI)
  assume "\<not> aborted"
  then have "POST w cr ag (Inr (Some question)) st =
      (case fallbackToDirectQuery w question (emit [Log_fallback] st1) of
              (Inl err, st2) \<Rightarrow> outer_catch err st2
            | (Inr fallback, st2) \<Rightarrow>
                (Ok_json \<lparr> answer = fb_answer fallback, sql = fb_sql fallback,
                           results = fb_results fallback,
                           rowCount = row_count (fb_results fallback),
                           toolName = None, usedAgent = False, agentName = None \<rparr>, st2))"
    unfolding POST_agent_failed[OF assms(3,4)] st1_def aborted_def by (rule if_not_P)
  then show "POST w cr ag (Inr (Some question)) st =
             (case query w (fallback_sql question) 1 (emit [Log_fallback] st1) of
                (Inr response, st2) \<Rightarrow>
                  (Ok_json \<lparr> answer = fallback_answer response, sql = None, results = None,
                             rowCount = 0, toolName = None, usedAgent = False,
                             agentName = None \<rparr>, st2)
              | (Inl err, st2) \<Rightarrow> outer_catch err st2)"
    by (cases "query w (fallback_sql question) 1 (emit [Log_fallback] st1)")
       (auto simp: fallbackToDirectQuery_def row_count_def split: sum.splits)
next
  assume "aborted"
  then have "POST w cr ag (Inr (Some question)) st = outer_catch (new_Error ''Request timeout'') st1"
    unfolding POST_agent_failed[OF assms(3,4)] st1_def aborted_def by (rule if_P)
  then show "POST w cr ag (Inr (Some question)) st =
             (Error_json 504 ''Request timed out. Please try a simpler question.'',
              emit [Log_analyst_error ''Request timeout''] st1)"
    by (simp add: outer_catch_timeout)
qed

lemma pat_agent_call:
  "callCortexAgent cr ag (pat_env ''abc123'') q =
     ag (agentUrl (pat_env ''abc123'')) ''abc123'' ''PROGRAMMATIC_ACCESS_TOKEN'' q"
  by (simp add: callCortexAgent_def getAuthToken_def pat_env_def empty_env_def truthy_def or_default_def)

text \<open>
  Claim C5 as stated fails on a timeout: the agent call is aborted, the warehouse would
  have answered the fallback statement, and the caller receives the 504 error with no
  statement executed.
\<close>

theorem timeout_is_surfaced_counterexample:
  "callCortexAgent no_crypto aborted_agent (environ answering_world (trace initial_state))
      ''How many cameras?'' = Inl abort_error
   \<and> POST answering_world no_crypto aborted_agent (Inr (Some ''How many cameras?'')) initial_state =
      (Error_json 504 ''Request timed out. Please try a simpler question.'',
       \<lparr> connection = None, cachedToken = None, cachedAuthMethod = None,
         trace = [Log_agent_error ''This operation was aborted'',
                  Log_analyst_error ''Request timeout''] \<rparr>)"
proof -
  have c: "callCortexAgent no_crypto aborted_agent (environ answering_world (trace initial_state))
      ''How many cameras?'' = Inl abort_error"
    by (simp add: answering_world_def pat_agent_call aborted_agent_def)
  have "POST answering_world no_crypto aborted_agent (Inr (Some ''How many cameras?'')) initial_state =
      outer_catch (new_Error ''Request timeout'')
             (emit [Log_agent_error (error_message abort_error)] initial_state)"
    using POST_agent_failed[OF _ c] by (simp add: abort_error_def)
  then show ?thesis using c
    by (simp add: outer_catch_timeout emit_def initial_state_def error_message_def abort_error_def)
qed


lemma answering_attempt:
  "attempt answering_world s
     \<lparr> connection = None, cachedToken = None, cachedAuthMethod = None,
       trace = [Log_agent_error m, Log_fallback] \<rparr> =
     (Inr [[(''RESPONSE'', ''Forty-two.'')]],
      \<lparr> connection = Some (pat_session ''abc123'' 3), cachedToken = None,
        cachedAuthMethod = Some pat,
        trace = [Log_agent_error m, Log_fallback, Log_connecting pat,
                 Call_connect (pat_session ''abc123'' 3),
                 Call_execute (pat_session ''abc123'' 3) s] \<rparr>)"
  by (simp add: attempt_def getConnection_def connect_new_def emit_def
      answering_world_def pat_env_facts truthy_def Let_def pat_session_def)

text \<open>
  The theorem at work: an agent that fails with an HTTP error leads to the fallback and
  its answer; an aborted agent call leads to the 504 response.
\<close>

theorem POST_fallback_unless_aborted_witness:
  "callCortexAgent no_crypto failing_agent (environ answering_world (trace initial_state))
      ''How many cameras?'' = Inl (new_Error ''Cortex Agent API error: 500 - boom'')
   \<and> \<not> str_includes (error_message (new_Error ''Cortex Agent API error: 500 - boom'')) ''aborted''
   \<and> \<not> isDOMException (new_Error ''Cortex Agent API error: 500 - boom'')
   \<and> POST answering_world no_crypto failing_agent (Inr (Some ''How many cameras?'')) initial_state =
      (Ok_json \<lparr> answer = ''Forty-two.'', sql = None, results = None, rowCount = 0,
                 toolName = None, usedAgent = False, agentName = None \<rparr>,
       \<lparr> connection = Some (pat_session ''abc123'' 3), cachedToken = None,
         cachedAuthMethod = Some pat,
         trace = [Log_agent_error ''Cortex Agent API error: 500 - boom'', Log_fallback,
                  Log_connecting pat, Call_connect (pat_session ''abc123'' 3),
                  Call_execute (pat_session ''abc123'' 3) (fallback_sql ''How many cameras?'')] \<rparr>)
   \<and> isDOMException abort_error
   \<and> fst (POST answering_world no_crypto aborted_agent (Inr (Some ''How many cameras?'')) initial_state) =
      Error_json 504 ''Request timed out. Please try a simpler question.''"
proof -
  let ?q = "''How many cameras?''"
  let ?err = "new_Error ''Cortex Agent API error: 500 - boom''"
  have ne: "?q \<noteq> []" by simp
  have c: "callCortexAgent no_crypto failing_agent (environ answering_world (trace initial_state)) ?q
      = Inl ?err"
    by (simp add: answering_world_def pat_agent_call failing_agent_def)
  have c2: "callCortexAgent no_crypto aborted_agent (environ answering_world (trace initial_state)) ?q
      = Inl abort_error"
    by (simp add: answering_world_def pat_agent_call aborted_agent_def)
  have m: "error_message ?err = ''Cortex Agent API error: 500 - boom''"
    by (simp add: error_message_def new_Error_def)
  have n1: "\<not> str_includes (error_message ?err) ''aborted''" unfolding m by simp
  have n2: "\<not> isDOMException ?err" by (simp add: new_Error_def)
  have d: "isDOMException abort_error" by (simp add: abort_error_def)
  have st: "emit [Log_fallback] (emit [Log_agent_error (error_message ?err)] initial_state) =
      \<lparr> connection = None, cachedToken = None, cachedAuthMethod = None,
        trace = [Log_agent_error ''Cortex Agent API error: 500 - boom'', Log_fallback] \<rparr>"
    unfolding m by (simp add: emit_def initial_state_def)
  have q: "query answering_world (fallback_sql ?q) 1
      (emit [Log_fallback] (emit [Log_agent_error (error_message ?err)] initial_state)) =
      (Inr [[(''RESPONSE'', ''Forty-two.'')]],
       \<lparr> connection = Some (pat_session ''abc123'' 3), cachedToken = None,
         cachedAuthMethod = Some pat,
         trace = [Log_agent_error ''Cortex Agent API error: 500 - boom'', Log_fallback,
                  Log_connecting pat, Call_connect (pat_session ''abc123'' 3),
                  Call_execute (pat_session ''abc123'' 3) (fallback_sql ?q)] \<rparr>)"
    unfolding st by (rule query_unfold_ok) (rule answering_attempt)
  have a: "fallback_answer [[(''RESPONSE'', ''Forty-two.'')]] = ''Forty-two.''"
    by (simp add: fallback_answer_def or_default_def)
  have ok: "POST answering_world no_crypto failing_agent (Inr (Some ?q)) initial_state =
      (Ok_json \<lparr> answer = ''Forty-two.'', sql = None, results = None, rowCount = 0,
                 toolName = None, usedAgent = False, agentName = None \<rparr>,
       \<lparr> connection = Some (pat_session ''abc123'' 3), cachedToken = None,
         cachedAuthMethod = Some pat,
         trace = [Log_agent_error ''Cortex Agent API error: 500 - boom'', Log_fallback,
                  Log_connecting pat, Call_connect (pat_session ''abc123'' 3),
                  Call_execute (pat_session ''abc123'' 3) (fallback_sql ?q)] \<rparr>)"
    using POST_fallback_unless_aborted[OF ne c, THEN conjunct1] n1 n2 unfolding q by (simp add: a)
  have to: "fst (POST answering_world no_crypto aborted_agent (Inr (Some ?q)) initial_state) =
      Error_json 504 ''Request timed out. Please try a simpler question.''"
    using POST_fallback_unless_aborted[OF ne c2, THEN conjunct2] d by simp
  show ?thesis using c n1 n2 ok d to by blast
qed

end
